theory Spec2Isabelle
  imports Complex_Main "HOL-Library.Char_ord" "HOL-Library.List_Lexorder" "HOL-Library.AList"
begin

chapter \<open>A SimCLR training and evaluation pipeline: model of the Python sources\<close>

section \<open>Python values the sources rely on\<close>

text \<open>
  Exceptions are values. Every function of the sources that can raise returns
  \<open>py_error + 'a\<close>, with \<open>Inl\<close> for the exception.
\<close>

datatype py_error =
    FileNotFoundError
  | IndexError
  | KeyError string
  | ValueError string
  | RuntimeError string

subsection \<open>Strings\<close>

text \<open>\<^verbatim>\<open>s.endswith(suffix)\<close> and \<^verbatim>\<open>s.startswith(prefix)\<close>.\<close>

definition endswith :: "string \<Rightarrow> string \<Rightarrow> bool" where
  "endswith s suffix =
     (length suffix \<le> length s \<and> drop (length s - length suffix) s = suffix)"

definition startswith :: "string \<Rightarrow> string \<Rightarrow> bool" where
  "startswith s prefix = (take (length prefix) s = prefix)"

text \<open>
  \<^verbatim>\<open>s.split(sep)\<close> for a separator of one character: every occurrence cuts, empty
  pieces are kept, and the result is never the empty list.
\<close>

fun split_sep :: "char \<Rightarrow> string \<Rightarrow> string list" where
  "split_sep sep [] = [[]]"
| "split_sep sep (c # cs) =
     (if c = sep then [] # split_sep sep cs
      else (case split_sep sep cs of [] \<Rightarrow> [[c]] | piece # pieces \<Rightarrow> (c # piece) # pieces))"

text \<open>
  \<^verbatim>\<open>int(s)\<close> on a string: white space around the numeral is dropped, one sign is
  allowed, then at least one decimal digit and nothing else; otherwise ValueError.
  (Python also allows single underscores between digits; the only caller here passes a
  piece of a string that was split at \<open>_\<close>, which has none.)
\<close>

definition is_space :: "char \<Rightarrow> bool" where
  "is_space c = (let n = (of_char c :: nat) in (9 \<le> n \<and> n \<le> 13) \<or> (28 \<le> n \<and> n \<le> 32))"

definition is_digit :: "char \<Rightarrow> bool" where
  "is_digit c = (let n = (of_char c :: nat) in 48 \<le> n \<and> n \<le> 57)"

definition strip :: "string \<Rightarrow> string" where
  "strip s = rev (dropWhile is_space (rev (dropWhile is_space s)))"

definition digits_value :: "string \<Rightarrow> nat" where
  "digits_value ds = foldl (\<lambda>acc c. 10 * acc + (of_char c - 48)) 0 ds"

definition py_int :: "string \<Rightarrow> py_error + int" where
  "py_int s =
     (let t = strip s;
          neg = (t \<noteq> [] \<and> hd t = CHR ''-'');
          ds = (if t \<noteq> [] \<and> (hd t = CHR ''-'' \<or> hd t = CHR ''+'') then tl t else t)
      in if ds \<noteq> [] \<and> list_all is_digit ds
         then Inr (if neg then - int (digits_value ds) else int (digits_value ds))
         else Inl (ValueError ''invalid literal for int()''))"

text \<open>\<^verbatim>\<open>str(i)\<close>, which is also what \<^verbatim>\<open>format\<close> and an f-string print for an integer.\<close>

definition digit_char :: "nat \<Rightarrow> char" where
  "digit_char d = ''0123456789'' ! d"

fun digits_of :: "nat \<Rightarrow> string" where
  "digits_of n =
     (if n < 10 then [digit_char n]
      else digits_of (n div 10) @ [digit_char (n mod 10)])"

declare digits_of.simps [simp del]

definition py_str :: "int \<Rightarrow> string" where
  "py_str i = (if i < 0 then CHR ''-'' # digits_of (nat (- i)) else digits_of (nat i))"

text \<open>\<^verbatim>\<open>range(a, b)\<close> over Python integers.\<close>

definition py_range :: "int \<Rightarrow> int \<Rightarrow> int list" where
  "py_range a b = [a..b - 1]"

subsection \<open>Directories\<close>

text \<open>
  A directory is the list of its entries, file name and content, in the order
  \<^verbatim>\<open>os.listdir\<close> reports them (which the operating system chooses). Names are not
  repeated: writing a file whose name exists replaces its content. A file system maps
  a path to the directory there, if there is one.
\<close>

type_synonym 'f directory = "(string \<times> 'f) list"

type_synonym 'f filesystem = "string \<Rightarrow> 'f directory option"

definition listdir :: "'f filesystem \<Rightarrow> string \<Rightarrow> py_error + string list" where
  "listdir fs path = (case fs path of None \<Rightarrow> Inl FileNotFoundError | Some d \<Rightarrow> Inr (map fst d))"

text \<open>\<^verbatim>\<open>os.makedirs(path, exist_ok=True)\<close>.\<close>

definition makedirs :: "'f filesystem \<Rightarrow> string \<Rightarrow> 'f filesystem" where
  "makedirs fs path = (case fs path of None \<Rightarrow> fs(path \<mapsto> []) | Some d \<Rightarrow> fs)"

text \<open>
  Writing the file \<open>name\<close> of the directory at \<open>path\<close> (\<^verbatim>\<open>torch.save\<close>,
  \<^verbatim>\<open>np.save\<close>); without the directory the write raises.
\<close>

definition write_file :: "'f filesystem \<Rightarrow> string \<Rightarrow> string \<Rightarrow> 'f \<Rightarrow> py_error + 'f filesystem" where
  "write_file fs path name content =
     (case fs path of
        None \<Rightarrow> Inl FileNotFoundError
      | Some d \<Rightarrow> Inr (fs(path \<mapsto> AList.update name content d)))"

definition read_file :: "'f filesystem \<Rightarrow> string \<Rightarrow> string \<Rightarrow> py_error + 'f" where
  "read_file fs path name =
     (case fs path of
        None \<Rightarrow> Inl FileNotFoundError
      | Some d \<Rightarrow> (case map_of d name of None \<Rightarrow> Inl FileNotFoundError | Some c \<Rightarrow> Inr c))"

text \<open>\<^verbatim>\<open>os.path.join(path, name)\<close> for a file name without a slash.\<close>

definition path_join :: "string \<Rightarrow> string \<Rightarrow> string" where
  "path_join path name =
     (if path = [] \<or> last path = CHR ''/'' then path @ name else path @ ''/'' @ name)"

section \<open>train.py\<close>

subsection \<open>The data loader\<close>

text \<open>
  \<^verbatim>\<open>torch.utils.data.DataLoader(dataset, batch_size, shuffle, drop_last)\<close>: the samples
  are taken in the order the sampler gives (the list \<open>xs\<close>; with \<^verbatim>\<open>shuffle=True\<close> a
  permutation drawn per epoch) and cut into batches of \<open>batch_size\<close>; a shorter last
  batch is yielded unless \<open>drop_last\<close>. The sources only use positive batch sizes
  (the library refuses others when the loader is built).
\<close>

function data_loader :: "nat \<Rightarrow> bool \<Rightarrow> 'a list \<Rightarrow> 'a list list" where
  "data_loader batch_size drop_last xs =
     (if batch_size = 0 \<or> xs = [] then []
      else if length xs < batch_size then (if drop_last then [] else [xs])
      else take batch_size xs # data_loader batch_size drop_last (drop batch_size xs))"
  by pat_completeness auto
termination
  by (relation "measure (\<lambda>(b, d, xs). length xs)") auto

declare data_loader.simps [simp del]

text \<open>
  \<^verbatim>\<open>get_data_loaders\<close> of train.py, from the two splits in sampler order:
  \<^verbatim>\<open>DataLoader(train_set, batch_size=256, shuffle=True, num_workers=4)\<close> and the same
  for the test split. \<^verbatim>\<open>drop_last\<close> is not passed; its default is False.
\<close>

definition train_get_data_loaders :: "'a list \<Rightarrow> 'a list \<Rightarrow> 'a list list \<times> 'a list list" where
  "train_get_data_loaders train_set test_set =
     (data_loader 256 False train_set, data_loader 256 False test_set)"

subsection \<open>The contrastive loss\<close>

text \<open>
  Tensors of floating-point numbers are modelled by lists of real numbers: a matrix is
  the list of its rows. Rounding is outside the model.
\<close>

type_synonym vec = "real list"

definition dot :: "vec \<Rightarrow> vec \<Rightarrow> real" where
  "dot x y = sum_list (map2 (\<lambda>a b. a * b) x y)"

text \<open>
  \<^verbatim>\<open>torch.nn.CosineSimilarity(dim=2)\<close> on one pair of rows, with the library's default
  \<^verbatim>\<open>eps=1e-8\<close>.
\<close>

definition cosine_sim :: "vec \<Rightarrow> vec \<Rightarrow> real" where
  "cosine_sim x y = dot x y / max (sqrt (dot x x) * sqrt (dot y y)) (1 / 10 ^ 8)"

text \<open>
  \<^verbatim>\<open>t.view(m, n, -1)\<close> on a tensor given as the list of its rows: \<open>m\<close> groups of
  \<open>n\<close> consecutive rows.
\<close>

fun view_rows :: "nat \<Rightarrow> nat \<Rightarrow> 'a list \<Rightarrow> 'a list list" where
  "view_rows 0 n xs = []"
| "view_rows (Suc m) n xs = take n xs # view_rows m n (drop n xs)"

text \<open>An entry of the similarity matrix after \<^verbatim>\<open>masked_fill_(mask, float('-inf'))\<close>.\<close>

datatype score = NegInf | Finite real

definition masked_fill_eye :: "real list list \<Rightarrow> score list list" where
  "masked_fill_eye sim =
     map (\<lambda>(k, row). map (\<lambda>(c, v). if k = c then NegInf else Finite v) (enumerate 0 row))
       (enumerate 0 sim)"

text \<open>\<^verbatim>\<open>F.softmax(sim, dim=1)\<close> on one row; \<open>exp\<close> of minus infinity is 0.\<close>

definition exp_score :: "score \<Rightarrow> real" where
  "exp_score s = (case s of NegInf \<Rightarrow> 0 | Finite v \<Rightarrow> exp v)"

definition softmax_row :: "score list \<Rightarrow> real list" where
  "softmax_row row = map (\<lambda>s. exp_score s / sum_list (map exp_score row)) row"

text \<open>
  \<^verbatim>\<open>labels = torch.arange(2*N); labels = (labels + N) % (2*N)\<close>.
\<close>

definition nt_xent_labels :: "nat \<Rightarrow> nat list" where
  "nt_xent_labels N = map (\<lambda>l. (l + N) mod (2 * N)) [0..<2 * N]"

text \<open>
  \<^verbatim>\<open>nt_xent_loss(z, tau)\<close>. With \<open>N = z.size(0) // 2\<close>, the two tensors that are
  compared have the shapes \<open>(z.size(0), 2N, D)\<close> and \<open>(2N, 2N, -1)\<close>; for an odd number
  of rows they do not broadcast, and for no rows the \<^verbatim>\<open>view\<close> is refused, so the
  library raises RuntimeError in both cases. The temperature is not checked; for
  \<open>tau = 0\<close> the floating-point quotients are infinite or undefined, which real
  numbers do not show, so the properties below are stated for \<open>tau \<noteq> 0\<close>.
\<close>

definition nt_xent_loss :: "vec list \<Rightarrow> real \<Rightarrow> py_error + real" where
  "nt_xent_loss z tau =
     (let N = length z div 2 in
      if N = 0 \<or> length z \<noteq> 2 * N then Inl (RuntimeError ''shape'')
      else
        let z_expanded = map (\<lambda>row. replicate (2 * N) row) z;
            z_tiled = view_rows (2 * N) (2 * N) (concat (replicate (2 * N) z));
            sim = map2 (\<lambda>re rt. map2 (\<lambda>a b. cosine_sim a b / tau) re rt) z_expanded z_tiled;
            sim_softmax = map softmax_row (masked_fill_eye sim);
            labels = nt_xent_labels N;
            pos_probs = map2 (\<lambda>row l. row ! l) sim_softmax labels
        in Inr (- (sum_list (map (\<lambda>p. ln (p + 1 / 10 ^ 9)) pos_probs)
                    / real (length pos_probs))))"

text \<open>
  The loss as the specification words it: with \<open>p k c\<close> the softmax probability of
  column \<open>c\<close> in row \<open>k\<close> of the similarity matrix divided by \<open>tau\<close>, the diagonal
  left out, the loss is the negative mean over the anchors \<open>k\<close> of
  \<open>log (p k (positive k) + eps)\<close>.
\<close>

definition spec_sim :: "vec list \<Rightarrow> real \<Rightarrow> nat \<Rightarrow> nat \<Rightarrow> real" where
  "spec_sim z tau k c = cosine_sim (z ! k) (z ! c) / tau"

definition spec_prob :: "vec list \<Rightarrow> real \<Rightarrow> nat \<Rightarrow> nat \<Rightarrow> real" where
  "spec_prob z tau k c =
     (if c = k then 0
      else exp (spec_sim z tau k c) / (\<Sum>j \<in> {..<length z} - {k}. exp (spec_sim z tau k j)))"

definition spec_positive :: "nat \<Rightarrow> nat \<Rightarrow> nat" where
  "spec_positive N k = (k + N) mod (2 * N)"

definition spec_loss :: "vec list \<Rightarrow> real \<Rightarrow> real" where
  "spec_loss z tau =
     - (\<Sum>k<length z. ln (spec_prob z tau k (spec_positive (length z div 2) k) + 1 / 10 ^ 9))
       / real (length z)"

text \<open>
  The same permutation \<open>ps\<close> of the samples (a list of the indices \<open>0..<N\<close>) applied to
  the first \<open>N\<close> rows and to the last \<open>N\<close> rows of a stack.
\<close>

definition permute_blocks :: "nat list \<Rightarrow> 'a list \<Rightarrow> 'a list" where
  "permute_blocks ps z =
     map (\<lambda>i. z ! i) ps @ map (\<lambda>i. z ! (length z div 2 + i)) ps"

subsection \<open>Checkpoints\<close>

text \<open>
  What \<^verbatim>\<open>torch.load\<close> returns for a file written by \<^verbatim>\<open>save_checkpoint\<close>: a
  dictionary with the keys \<open>epoch\<close>, \<open>state_dict\<close> and \<open>optimizer\<close>. A field is
  \<open>None\<close> when the key is absent. The state of a model (of an optimizer) and its state
  dictionary have one type, \<open>'m\<close> (\<open>'o\<close>).
\<close>

record ('m, 'o) checkpoint =
  ck_epoch :: "int option"
  ck_state_dict :: "'m option"
  ck_optimizer :: "'o option"

text \<open>A file of the checkpoint directory: readable by \<^verbatim>\<open>torch.load\<close>, or not.\<close>

datatype ('m, 'o) ckfile = Unreadable | Pickled "('m, 'o) checkpoint"

text \<open>
  \<^verbatim>\<open>load_state_dict\<close> of the model and of the optimizer are library calls that change
  their object in place and may raise: each is a function from the state dictionary and
  the state before to the exception, if any, and the state after.
\<close>

record ('m, 'o) torch_ops =
  model_load_state_dict :: "'m \<Rightarrow> 'm \<Rightarrow> py_error option \<times> 'm"
  optimizer_load_state_dict :: "'o \<Rightarrow> 'o \<Rightarrow> py_error option \<times> 'o"

text \<open>
  \<^verbatim>\<open>save_checkpoint(state, epoch, base_dir)\<close> with the default file name pattern
  \<^verbatim>\<open>checkpoint_{epoch}.pth.tar\<close>.
\<close>

definition checkpoint_filename :: "int \<Rightarrow> string" where
  "checkpoint_filename epoch = ''checkpoint_'' @ py_str epoch @ ''.pth.tar''"

definition save_checkpoint ::
  "('m, 'o) ckfile filesystem \<Rightarrow> ('m, 'o) checkpoint \<Rightarrow> int \<Rightarrow> string \<Rightarrow> ('m, 'o) ckfile filesystem"
where
  "save_checkpoint fs state epoch base_dir =
     (case write_file (makedirs fs base_dir) base_dir (checkpoint_filename epoch) (Pickled state) of
        Inl e \<Rightarrow> fs
      | Inr fs' \<Rightarrow> fs')"

text \<open>
  The key of \<^verbatim>\<open>max\<close> in \<^verbatim>\<open>load_checkpoint\<close>:
  \<^verbatim>\<open>int(x.split('_')[1].split('.')[0])\<close>.
\<close>

definition epoch_key :: "string \<Rightarrow> py_error + int" where
  "epoch_key x =
     (let parts = split_sep CHR ''_'' x in
      if length parts < 2 then Inl IndexError
      else py_int (hd (split_sep CHR ''.'' (parts ! 1))))"

text \<open>
  \<^verbatim>\<open>max(xs, key=key)\<close>: the key of every element is computed, in order; the first
  element whose key is largest wins; an exception of the key ends the call.
\<close>

fun max_loop :: "('a \<Rightarrow> py_error + int) \<Rightarrow> 'a \<Rightarrow> int \<Rightarrow> 'a list \<Rightarrow> py_error + 'a" where
  "max_loop key best best_key [] = Inr best"
| "max_loop key best best_key (x # xs) =
     (case key x of
        Inl e \<Rightarrow> Inl e
      | Inr v \<Rightarrow> if v > best_key then max_loop key x v xs else max_loop key best best_key xs)"

definition py_max :: "('a \<Rightarrow> py_error + int) \<Rightarrow> 'a list \<Rightarrow> py_error + 'a" where
  "py_max key xs =
     (case xs of
        [] \<Rightarrow> Inl (ValueError ''max() arg is an empty sequence'')
      | x # rest \<Rightarrow> (case key x of Inl e \<Rightarrow> Inl e | Inr v \<Rightarrow> max_loop key x v rest))"

text \<open>What \<^verbatim>\<open>load_checkpoint\<close> prints.\<close>

datatype message =
    NoCheckpointsFound string
  | LoadingCheckpoint string
  | LoadedCheckpoint string int
  | ErrorLoadingCheckpoint py_error

text \<open>
  The result of \<^verbatim>\<open>load_checkpoint\<close>: the returned epoch, the model and the optimizer
  as the call leaves them, and the lines printed. The function returns on every path:
  its body is one \<^verbatim>\<open>try\<close> whose handler catches every exception.
\<close>

record ('m, 'o) loaded =
  epoch_of :: int
  model_of :: 'm
  optimizer_of :: 'o
  printed :: "message list"

text \<open>The part of \<^verbatim>\<open>load_checkpoint\<close> up to the choice of the file.\<close>

definition select_latest :: "string list \<Rightarrow> py_error + string" where
  "select_latest names =
     py_max epoch_key (filter (\<lambda>chkpt. endswith chkpt ''.pth.tar'') names)"

text \<open>The part after \<^verbatim>\<open>torch.load\<close>: the three restoring statements, in their order.\<close>

definition restore ::
  "('m, 'o) torch_ops \<Rightarrow> string \<Rightarrow> ('m, 'o) checkpoint \<Rightarrow> 'm \<Rightarrow> 'o \<Rightarrow> ('m, 'o) loaded"
where
  "restore ops path ck model optimizer =
     (let failed = (\<lambda>e m opt. \<lparr>epoch_of = 0, model_of = m, optimizer_of = opt,
                      printed = [LoadingCheckpoint path, ErrorLoadingCheckpoint e]\<rparr>) in
      case ck_state_dict ck of
        None \<Rightarrow> failed (KeyError ''state_dict'') model optimizer
      | Some sd \<Rightarrow>
          (case model_load_state_dict ops sd model of
             (Some e, m') \<Rightarrow> failed e m' optimizer
           | (None, m') \<Rightarrow>
               (case ck_optimizer ck of
                  None \<Rightarrow> failed (KeyError ''optimizer'') m' optimizer
                | Some od \<Rightarrow>
                    (case optimizer_load_state_dict ops od optimizer of
                       (Some e, o') \<Rightarrow> failed e m' o'
                     | (None, o') \<Rightarrow>
                         (case ck_epoch ck of
                            None \<Rightarrow> failed (KeyError ''epoch'') m' o'
                          | Some epoch \<Rightarrow>
                              \<lparr>epoch_of = epoch, model_of = m', optimizer_of = o',
                               printed = [LoadingCheckpoint path,
                                          LoadedCheckpoint path epoch]\<rparr>)))))"

definition load_checkpoint ::
  "('m, 'o) torch_ops \<Rightarrow> ('m, 'o) ckfile filesystem \<Rightarrow> string \<Rightarrow> 'm \<Rightarrow> 'o \<Rightarrow> ('m, 'o) loaded"
where
  "load_checkpoint ops fs checkpoint_dir model optimizer =
     (let caught = (\<lambda>e. \<lparr>epoch_of = 0, model_of = model, optimizer_of = optimizer,
                      printed = [ErrorLoadingCheckpoint e]\<rparr>) in
      case listdir fs checkpoint_dir of
        Inl e \<Rightarrow> caught e
      | Inr names \<Rightarrow>
          let checkpoints = filter (\<lambda>chkpt. endswith chkpt ''.pth.tar'') names in
          if checkpoints = [] then
            \<lparr>epoch_of = 0, model_of = model, optimizer_of = optimizer,
             printed = [NoCheckpointsFound checkpoint_dir]\<rparr>
          else
            (case py_max epoch_key checkpoints of
               Inl e \<Rightarrow> caught e
             | Inr latest_checkpoint \<Rightarrow>
                 let latest_checkpoint_path = path_join checkpoint_dir latest_checkpoint in
                 (case read_file fs checkpoint_dir latest_checkpoint of
                    Inl e \<Rightarrow> (caught e)\<lparr>printed := [LoadingCheckpoint latest_checkpoint_path,
                                                    ErrorLoadingCheckpoint e]\<rparr>
                  | Inr Unreadable \<Rightarrow>
                      (caught (RuntimeError ''torch.load''))
                        \<lparr>printed := [LoadingCheckpoint latest_checkpoint_path,
                                     ErrorLoadingCheckpoint (RuntimeError ''torch.load'')]\<rparr>
                  | Inr (Pickled ck) \<Rightarrow>
                      restore ops latest_checkpoint_path ck model optimizer)))"

subsection \<open>The training loop\<close>

text \<open>
  One worker of \<^verbatim>\<open>train\<close>. The model and the optimizer are states of types \<open>'m\<close>
  and \<open>'o\<close>; augmentation, forward pass, loss, backward pass and optimizer step on one
  batch are one function \<open>step\<close> on them. \<open>w_done\<close> is not a variable of the source:
  it records which (epoch, batch index) pairs the worker has processed, oldest first.
\<close>

record ('m, 'o) worker =
  w_model :: 'm
  w_optimizer :: 'o
  w_fs :: "('m, 'o) ckfile filesystem"
  w_done :: "(int \<times> nat) list"

text \<open>
  The body of the inner loop: the step, then
  \<^verbatim>\<open>if batch_idx % 100 == 0: save_checkpoint({'epoch': epoch + 1, ...}, epoch, ...)\<close>.
\<close>

definition train_batch ::
  "('b \<Rightarrow> 'm \<times> 'o \<Rightarrow> 'm \<times> 'o) \<Rightarrow> string \<Rightarrow> int \<Rightarrow> nat \<Rightarrow> 'b \<Rightarrow> ('m, 'o) worker \<Rightarrow> ('m, 'o) worker"
where
  "train_batch step checkpoint_dir epoch batch_idx images w =
     (let (m', o') = step images (w_model w, w_optimizer w);
          fs' = (if batch_idx mod 100 = 0
                 then save_checkpoint (w_fs w)
                        \<lparr>ck_epoch = Some (epoch + 1), ck_state_dict = Some m',
                         ck_optimizer = Some o'\<rparr> epoch checkpoint_dir
                 else w_fs w)
      in \<lparr>w_model = m', w_optimizer = o', w_fs = fs',
          w_done = w_done w @ [(epoch, batch_idx)]\<rparr>)"

text \<open>
  The iterations of
  \<^verbatim>\<open>for epoch in range(start_epoch, epochs): for batch_idx, batch in enumerate(train_loader)\<close>,
  in order. (A shuffling loader yields the batches of an epoch in a new order each
  time; their number is the same.)
\<close>

definition iterations :: "int \<Rightarrow> int \<Rightarrow> 'b list \<Rightarrow> (int \<times> nat \<times> 'b) list" where
  "iterations start_epoch epochs train_loader =
     concat (map (\<lambda>epoch. map (\<lambda>(batch_idx, images). (epoch, batch_idx, images))
                            (enumerate 0 train_loader))
                 (py_range start_epoch epochs))"





section \<open>eval_crop_optimized.py\<close>

subsection \<open>The data loaders\<close>



subsection \<open>Feature extraction\<close>

text \<open>
  The encoder: a backbone \<open>base\<close>, which in evaluation mode maps each image of a batch
  to its flattened feature vector on its own, and a projection head.
\<close>

record 'img encoder =
  base :: "'img \<Rightarrow> vec"
  projection_head :: "vec \<Rightarrow> vec"

definition forward :: "'img encoder \<Rightarrow> 'img list \<Rightarrow> vec list" where
  "forward model x = map (projection_head model) (map (base model) x)"

text \<open>
  A batch of the loader: \<open>images\<close> of shape \<open>[batch, num_img, C, H, W]\<close> as the list,
  per sample, of its images, and the labels of the samples.
\<close>

record ('img, 'l) batch =
  images :: "'img list list"
  fine_grained :: "'l list"

text \<open>\<^verbatim>\<open>t.mean(dim=1)\<close> on one sample: the elementwise mean of its vectors.\<close>

definition mean_dim1 :: "vec list \<Rightarrow> vec" where
  "mean_dim1 vs =
     map (\<lambda>j. sum_list (map (\<lambda>v. v ! j) vs) / real (length vs)) [0..<length (hd vs)]"

text \<open>
  The forward part of the loop body of \<^verbatim>\<open>extract_features_and_labels\<close>: the shape
  of \<open>images\<close> is read off, the images are flattened to one batch, sent through
  \<^verbatim>\<open>model.base\<close>, regrouped per sample and averaged.
\<close>

definition aggregated_features :: "'img encoder \<Rightarrow> 'img list list \<Rightarrow> vec list" where
  "aggregated_features model imgs =
     (let batch_size = length imgs;
          num_img = length (hd imgs);
          flat = concat imgs;
          output = map (base model) flat;
          output3 = view_rows batch_size num_img output
      in map mean_dim1 output3)"

text \<open>The files of the results directory.\<close>

datatype 'l npy = Features "vec list" | Labels "'l list" | Picture

definition features_name :: "string \<Rightarrow> nat \<Rightarrow> string" where
  "features_name split_name i = split_name @ ''_features_batch_'' @ py_str (int i) @ ''.npy''"

definition labels_name :: "string \<Rightarrow> nat \<Rightarrow> string" where
  "labels_name split_name i = split_name @ ''_labels_batch_'' @ py_str (int i) @ ''.npy''"

fun extract_loop ::
  "'img encoder \<Rightarrow> string \<Rightarrow> string \<Rightarrow> nat \<Rightarrow> ('img, 'l) batch list \<Rightarrow> 'l npy filesystem \<Rightarrow>
   py_error + 'l npy filesystem"
where
  "extract_loop model save_dir split_name i [] fs = Inr fs"
| "extract_loop model save_dir split_name i (b # bs) fs =
     (case write_file fs save_dir (features_name split_name i)
             (Features (aggregated_features model (images b))) of
        Inl e \<Rightarrow> Inl e
      | Inr fs1 \<Rightarrow>
          (case write_file fs1 save_dir (labels_name split_name i) (Labels (fine_grained b)) of
             Inl e \<Rightarrow> Inl e
           | Inr fs2 \<Rightarrow> extract_loop model save_dir split_name (Suc i) bs fs2))"

definition extract_features_and_labels ::
  "'img encoder \<Rightarrow> ('img, 'l) batch list \<Rightarrow> string \<Rightarrow> string \<Rightarrow> 'l npy filesystem \<Rightarrow>
   py_error + 'l npy filesystem"
where
  "extract_features_and_labels model loader save_dir split_name fs =
     extract_loop model save_dir split_name 0 loader (makedirs fs save_dir)"

text \<open>
  The directory the loop leaves when it starts, at batch index \<open>i\<close>, on the directory
  \<open>d\<close>: the two files of each batch are written in turn. (This function is not in the
  source; it states what \<open>extract_loop\<close> does to the one directory it writes.)
\<close>

fun write_shards ::
  "'img encoder \<Rightarrow> string \<Rightarrow> nat \<Rightarrow> ('img, 'l) batch list \<Rightarrow> 'l npy directory \<Rightarrow> 'l npy directory"
where
  "write_shards model split_name i [] d = d"
| "write_shards model split_name i (b # bs) d =
     write_shards model split_name (Suc i) bs
       (AList.update (labels_name split_name i) (Labels (fine_grained b))
          (AList.update (features_name split_name i)
             (Features (aggregated_features model (images b))) d))"

subsection \<open>Loading the shards\<close>

text \<open>\<^verbatim>\<open>[np.load(os.path.join(save_dir, f)) for f in files]\<close>.\<close>

fun load_all :: "'f filesystem \<Rightarrow> string \<Rightarrow> string list \<Rightarrow> py_error + 'f list" where
  "load_all fs dir [] = Inr []"
| "load_all fs dir (f # fs') =
     (case read_file fs dir f of
        Inl e \<Rightarrow> Inl e
      | Inr a \<Rightarrow> (case load_all fs dir fs' of Inl e \<Rightarrow> Inl e | Inr as \<Rightarrow> Inr (a # as)))"

text \<open>
  \<^verbatim>\<open>np.concatenate(arrays, axis=0)\<close>: at least one array, all of one number of
  dimensions, and the two-dimensional ones with rows of one length.
\<close>

definition rows_of :: "'l npy \<Rightarrow> vec list option" where
  "rows_of a = (case a of Features rs \<Rightarrow> Some rs | _ \<Rightarrow> None)"

definition labels_of :: "'l npy \<Rightarrow> 'l list option" where
  "labels_of a = (case a of Labels ls \<Rightarrow> Some ls | _ \<Rightarrow> None)"

definition same_length :: "'a list list \<Rightarrow> bool" where
  "same_length rs = (case rs of [] \<Rightarrow> True | r # _ \<Rightarrow> list_all (\<lambda>x. length x = length r) rs)"

definition np_concatenate :: "'l npy list \<Rightarrow> py_error + 'l npy" where
  "np_concatenate arrays =
     (if arrays = [] then Inl (ValueError ''need at least one array to concatenate'')
      else if list_all (\<lambda>a. rows_of a \<noteq> None) arrays
              \<and> same_length (concat (map (\<lambda>a. the (rows_of a)) arrays))
      then Inr (Features (concat (map (\<lambda>a. the (rows_of a)) arrays)))
      else if list_all (\<lambda>a. labels_of a \<noteq> None) arrays
      then Inr (Labels (concat (map (\<lambda>a. the (labels_of a)) arrays)))
      else Inl (ValueError ''all the input array dimensions must match''))"

text \<open>\<^verbatim>\<open>sorted([f for f in os.listdir(dir) if f.startswith(prefix)])\<close>.\<close>

definition sorted_files :: "'f filesystem \<Rightarrow> string \<Rightarrow> string \<Rightarrow> py_error + string list" where
  "sorted_files fs dir prefix =
     (case listdir fs dir of
        Inl e \<Rightarrow> Inl e
      | Inr names \<Rightarrow> Inr (sort (filter (\<lambda>f. startswith f prefix) names)))"

definition load_and_concatenate_features ::
  "'l npy filesystem \<Rightarrow> string \<Rightarrow> string \<Rightarrow> py_error + ('l npy \<times> 'l npy)"
where
  "load_and_concatenate_features fs save_dir split_name =
     (case sorted_files fs save_dir (split_name @ ''_features_batch_'') of
        Inl e \<Rightarrow> Inl e
      | Inr feature_files \<Rightarrow>
     (case sorted_files fs save_dir (split_name @ ''_labels_batch_'') of
        Inl e \<Rightarrow> Inl e
      | Inr label_files \<Rightarrow>
     (case load_all fs save_dir feature_files of
        Inl e \<Rightarrow> Inl e
      | Inr features_list \<Rightarrow>
     (case load_all fs save_dir label_files of
        Inl e \<Rightarrow> Inl e
      | Inr labels_list \<Rightarrow>
     (case np_concatenate features_list of
        Inl e \<Rightarrow> Inl e
      | Inr features \<Rightarrow>
     (case np_concatenate labels_list of
        Inl e \<Rightarrow> Inl e
      | Inr labels \<Rightarrow> Inr (features, labels)))))))"

subsection \<open>Evaluation\<close>

text \<open>
  The classifier library and the metrics are outside the sources: they are the fields
  of a record of operations, each of which may raise. \<open>SGDClassifier(...)\<close> is the
  unfitted classifier \<open>sgd_classifier\<close>;
  \<open>KNeighborsClassifier(...).fit\<close> is \<open>knn_fit\<close>; \<open>compute_metrics\<close> stands for
  the accuracy, the precision, recall and F1 score and the confusion matrix.
\<close>

record ('clf, 'l, 'r) sklearn =
  sgd_classifier :: 'clf
  partial_fit :: "'clf \<Rightarrow> 'l npy \<Rightarrow> 'l npy \<Rightarrow> py_error + 'clf"
  predict :: "'clf \<Rightarrow> 'l npy \<Rightarrow> py_error + 'l npy"
  knn_fit :: "'l npy \<Rightarrow> 'l npy \<Rightarrow> py_error + 'clf"
  compute_metrics :: "'l npy \<Rightarrow> 'l npy \<Rightarrow> py_error + 'r"

text \<open>The calls into the library that a run makes, in order.\<close>

datatype call =
    PartialFit string string
  | Predict string
  | KnnFit
  | KnnPredict
  | ComputeMetrics
  | SavePlot

text \<open>
  A run of \<^verbatim>\<open>evaluate_model_incremental\<close>: what it returns or raises, and the calls
  it made.
\<close>

type_synonym ('a) traced = "(py_error + 'a) \<times> call list"

text \<open>
  \<^verbatim>\<open>for feat_file, label_file in zip(...): ... classifier.partial_fit(features, labels)\<close>.
\<close>

fun fit_loop ::
  "('clf, 'l, 'r) sklearn \<Rightarrow> 'l npy filesystem \<Rightarrow> string \<Rightarrow> string \<Rightarrow> 'clf \<Rightarrow>
   (string \<times> string) list \<Rightarrow> call list \<Rightarrow> 'clf traced"
where
  "fit_loop sk fs fdir ldir clf [] calls = (Inr clf, calls)"
| "fit_loop sk fs fdir ldir clf ((feat_file, label_file) # rest) calls =
     (case read_file fs fdir feat_file of
        Inl e \<Rightarrow> (Inl e, calls)
      | Inr features \<Rightarrow>
          (case read_file fs ldir label_file of
             Inl e \<Rightarrow> (Inl e, calls)
           | Inr labels \<Rightarrow>
               (case partial_fit sk clf features labels of
                  Inl e \<Rightarrow> (Inl e, calls @ [PartialFit feat_file label_file])
                | Inr clf' \<Rightarrow>
                    fit_loop sk fs fdir ldir clf' rest
                      (calls @ [PartialFit feat_file label_file]))))"

text \<open>
  \<^verbatim>\<open>for feat_file, label_file in zip(...): ... preds = classifier.predict(features)\<close>,
  with the two lists that collect the predictions and the labels.
\<close>

fun predict_loop ::
  "('clf, 'l, 'r) sklearn \<Rightarrow> 'l npy filesystem \<Rightarrow> string \<Rightarrow> string \<Rightarrow> 'clf \<Rightarrow>
   (string \<times> string) list \<Rightarrow> 'l npy list \<Rightarrow> 'l npy list \<Rightarrow> call list \<Rightarrow>
   ('l npy list \<times> 'l npy list) traced"
where
  "predict_loop sk fs fdir ldir clf [] predictions test_labels calls =
     (Inr (predictions, test_labels), calls)"
| "predict_loop sk fs fdir ldir clf ((feat_file, label_file) # rest) predictions test_labels calls =
     (case read_file fs fdir feat_file of
        Inl e \<Rightarrow> (Inl e, calls)
      | Inr features \<Rightarrow>
          (case read_file fs ldir label_file of
             Inl e \<Rightarrow> (Inl e, calls)
           | Inr labels \<Rightarrow>
               (case predict sk clf features of
                  Inl e \<Rightarrow> (Inl e, calls @ [Predict feat_file])
                | Inr preds \<Rightarrow>
                    predict_loop sk fs fdir ldir clf rest (predictions @ [preds])
                      (test_labels @ [labels]) (calls @ [Predict feat_file]))))"

text \<open>The branch \<^verbatim>\<open>classifier_type == "logistic"\<close>, up to the two concatenations.\<close>

definition logistic_branch ::
  "('clf, 'l, 'r) sklearn \<Rightarrow> 'l npy filesystem \<Rightarrow> string \<Rightarrow> string \<Rightarrow> string \<Rightarrow> string \<Rightarrow>
   ('l npy \<times> 'l npy) traced"
where
  "logistic_branch sk fs train_features_dir train_labels_dir test_features_dir test_labels_dir =
     (case sorted_files fs train_labels_dir ''train_labels_batch_'' of
        Inl e \<Rightarrow> (Inl e, [])
      | Inr train_label_files \<Rightarrow>
     (case load_all fs train_labels_dir train_label_files of
        Inl e \<Rightarrow> (Inl e, [])
      | Inr all_labels \<Rightarrow>
     (case sorted_files fs train_features_dir ''train_features_batch_'' of
        Inl e \<Rightarrow> (Inl e, [])
      | Inr train_feature_files \<Rightarrow>
     (case fit_loop sk fs train_features_dir train_labels_dir (sgd_classifier sk)
             (zip train_feature_files train_label_files) [] of
        (Inl e, calls) \<Rightarrow> (Inl e, calls)
      | (Inr classifier, calls) \<Rightarrow>
     (case sorted_files fs test_features_dir ''test_features_batch_'' of
        Inl e \<Rightarrow> (Inl e, calls)
      | Inr test_feature_files \<Rightarrow>
     (case sorted_files fs test_labels_dir ''test_labels_batch_'' of
        Inl e \<Rightarrow> (Inl e, calls)
      | Inr test_label_files \<Rightarrow>
     (case predict_loop sk fs test_features_dir test_labels_dir classifier
             (zip test_feature_files test_label_files) [] [] calls of
        (Inl e, calls') \<Rightarrow> (Inl e, calls')
      | (Inr (predictions, test_labels), calls') \<Rightarrow>
     (case np_concatenate predictions of
        Inl e \<Rightarrow> (Inl e, calls')
      | Inr predictions' \<Rightarrow>
     (case np_concatenate test_labels of
        Inl e \<Rightarrow> (Inl e, calls')
      | Inr test_labels' \<Rightarrow> (Inr (test_labels', predictions'), calls'))))))))))"

text \<open>The branch \<^verbatim>\<open>classifier_type == "knn"\<close>.\<close>

definition knn_branch ::
  "('clf, 'l, 'r) sklearn \<Rightarrow> 'l npy filesystem \<Rightarrow> string \<Rightarrow> string \<Rightarrow> ('l npy \<times> 'l npy) traced"
where
  "knn_branch sk fs train_features_dir test_features_dir =
     (case load_and_concatenate_features fs train_features_dir ''train'' of
        Inl e \<Rightarrow> (Inl e, [])
      | Inr (train_features, train_labels) \<Rightarrow>
     (case load_and_concatenate_features fs test_features_dir ''test'' of
        Inl e \<Rightarrow> (Inl e, [])
      | Inr (test_features, test_labels) \<Rightarrow>
     (case knn_fit sk train_features train_labels of
        Inl e \<Rightarrow> (Inl e, [KnnFit])
      | Inr classifier \<Rightarrow>
     (case predict sk classifier test_features of
        Inl e \<Rightarrow> (Inl e, [KnnFit, KnnPredict])
      | Inr predictions \<Rightarrow> (Inr (test_labels, predictions), [KnnFit, KnnPredict])))))"

text \<open>
  \<^verbatim>\<open>evaluate_model_incremental\<close>: the dispatch on \<open>classifier_type\<close>, then the
  metrics and the plot of the confusion matrix.
\<close>

definition evaluate_model_incremental ::
  "('clf, 'l, 'r) sklearn \<Rightarrow> 'l npy filesystem \<Rightarrow> string \<Rightarrow> string \<Rightarrow> string \<Rightarrow> string \<Rightarrow>
   string \<Rightarrow> string \<Rightarrow> 'r traced"
where
  "evaluate_model_incremental sk fs train_features_dir train_labels_dir test_features_dir
       test_labels_dir save_dir classifier_type =
     (let fitted =
            (if classifier_type = ''logistic'' then
               logistic_branch sk fs train_features_dir train_labels_dir test_features_dir
                 test_labels_dir
             else if classifier_type = ''knn'' then
               knn_branch sk fs train_features_dir test_features_dir
             else (Inl (ValueError (''Unsupported classifier type: '' @ classifier_type)), []))
      in case fitted of
           (Inl e, calls) \<Rightarrow> (Inl e, calls)
         | (Inr (test_labels, predictions), calls) \<Rightarrow>
             (case compute_metrics sk test_labels predictions of
                Inl e \<Rightarrow> (Inl e, calls @ [ComputeMetrics])
              | Inr r \<Rightarrow> (Inr r, calls @ [ComputeMetrics, SavePlot])))"

section \<open>Example values\<close>

text \<open>
  A model and an optimizer whose state is one number, with \<^verbatim>\<open>load_state_dict\<close>
  calls that always succeed and install the state dictionary.
\<close>

definition example_ops :: "(nat, nat) torch_ops" where
  "example_ops = \<lparr>model_load_state_dict = (\<lambda>sd m. (None, sd)),
                  optimizer_load_state_dict = (\<lambda>sd opt. (None, sd))\<rparr>"





text \<open>
  An encoder on images that are numbers, with one feature per image, and a loader of
  eleven batches of one sample with one image each: sample \<open>i\<close> has image \<open>i\<close> and
  label \<open>i\<close>.
\<close>

definition example_encoder :: "nat encoder" where
  "example_encoder = \<lparr>base = (\<lambda>img. [real img]), projection_head = (\<lambda>v. v)\<rparr>"



text \<open>
  Three batches of two samples with four images each, for the encoder above.
\<close>

definition three_batches :: "(nat, nat) batch list" where
  "three_batches =
     [\<lparr>images = [[1, 2, 3, 6], [0, 0, 0, 4]], fine_grained = [0, 1]\<rparr>,
      \<lparr>images = [[2, 2, 2, 2], [1, 3, 5, 7]], fine_grained = [2, 3]\<rparr>,
      \<lparr>images = [[0, 0, 0, 0], [4, 4, 8, 8]], fine_grained = [4, 5]\<rparr>]"

text \<open>A classifier library whose calls all succeed.\<close>

definition example_sklearn :: "(unit, nat, unit) sklearn" where
  "example_sklearn =
     \<lparr>sgd_classifier = (),
      partial_fit = (\<lambda>clf features labels. Inr ()),
      predict = (\<lambda>clf features. Inr (Labels [])),
      knn_fit = (\<lambda>features labels. Inr ()),
      compute_metrics = (\<lambda>labels predictions. Inr ())\<rparr>"

chapter \<open>Properties\<close>

section \<open>The checkpoint manager\<close>

subsection \<open>The choice of the latest checkpoint\<close>



lemma select_latest_nonempty:
  "select_latest names = Inr f \<Longrightarrow> filter (\<lambda>chkpt. endswith chkpt ''.pth.tar'') names \<noteq> []"
  by (auto simp: select_latest_def py_max_def)

lemma load_checkpoint_restore:
  assumes "fs checkpoint_dir = Some d"
      and "select_latest (map fst d) = Inr f"
      and "map_of d f = Some (Pickled ck)"
  shows "load_checkpoint ops fs checkpoint_dir model optimizer =
           restore ops (path_join checkpoint_dir f) ck model optimizer"
  using assms select_latest_nonempty [OF assms(2)]
  by (simp add: load_checkpoint_def listdir_def select_latest_def read_file_def)

lemma epoch_key_5: "epoch_key ''checkpoint_5.pth.tar'' = Inr 5"
  by (simp add: epoch_key_def py_int_def strip_def is_space_def is_digit_def digits_value_def)






subsection \<open>Cold start\<close>

text \<open>
  Claim C7. On a checkpoint directory without any file ending in \<open>.pth.tar\<close> (an
  empty directory among them), \<^verbatim>\<open>load_checkpoint\<close> returns epoch 0, hands back the
  model and the optimizer as they were, and prints the line that no checkpoint was
  found. The call returns: nothing is raised.
\<close>

theorem load_checkpoint_cold_start:
  assumes "fs checkpoint_dir = Some d"
      and "\<forall>n\<in>set (map fst d). \<not> endswith n ''.pth.tar''"
  shows "load_checkpoint ops fs checkpoint_dir model optimizer =
           \<lparr>epoch_of = 0, model_of = model, optimizer_of = optimizer,
            printed = [NoCheckpointsFound checkpoint_dir]\<rparr>"
proof -
  have "filter (\<lambda>chkpt. endswith chkpt ''.pth.tar'') (map fst d) = []"
    using assms(2) by (simp add: filter_empty_conv)
  then show ?thesis
    using assms(1) by (simp add: load_checkpoint_def listdir_def)
qed

text \<open>The empty directory, and a directory that only holds a file of another kind.\<close>

theorem load_checkpoint_cold_start_witness:
  "load_checkpoint example_ops ((\<lambda>p. None)(''ck'' \<mapsto> [])) ''ck'' 7 8 =
     \<lparr>epoch_of = 0, model_of = 7, optimizer_of = 8, printed = [NoCheckpointsFound ''ck'']\<rparr>
   \<and> load_checkpoint example_ops ((\<lambda>p. None)(''ck'' \<mapsto> [(''notes.txt'', Unreadable)])) ''ck'' 7 8 =
     \<lparr>epoch_of = 0, model_of = 7, optimizer_of = 8, printed = [NoCheckpointsFound ''ck'']\<rparr>"
proof
  show "load_checkpoint example_ops ((\<lambda>p. None)(''ck'' \<mapsto> [])) ''ck'' 7 8 =
     \<lparr>epoch_of = 0, model_of = 7, optimizer_of = 8, printed = [NoCheckpointsFound ''ck'']\<rparr>"
    by (rule load_checkpoint_cold_start [where d = "[]"]) simp_all
  show "load_checkpoint example_ops ((\<lambda>p. None)(''ck'' \<mapsto> [(''notes.txt'', Unreadable)])) ''ck'' 7 8 =
     \<lparr>epoch_of = 0, model_of = 7, optimizer_of = 8, printed = [NoCheckpointsFound ''ck'']\<rparr>"
    by (rule load_checkpoint_cold_start [where d = "[(''notes.txt'', Unreadable)]"])
       (simp_all add: endswith_def)
qed

subsection \<open>Restore failures\<close>

text \<open>
  Claim C10. \<^verbatim>\<open>load_checkpoint\<close> is not atomic. When the selected file is read, its
  \<open>state_dict\<close> is there and the model takes it, and then the \<open>optimizer\<close> key is
  absent, or the optimizer refuses its state, or the \<open>epoch\<close> key is absent, the
  exception is caught and printed and 0 is returned as for a cold start, but the model
  handed back is the restored one, not the one the caller passed.
\<close>

theorem load_checkpoint_not_atomic:
  assumes "fs checkpoint_dir = Some d"
      and "select_latest (map fst d) = Inr f"
      and "map_of d f = Some (Pickled ck)"
      and "ck_state_dict ck = Some sd"
      and "model_load_state_dict ops sd model = (None, m')"
      and "ck_optimizer ck = None
           \<or> (\<exists>od e o'. ck_optimizer ck = Some od
                 \<and> optimizer_load_state_dict ops od optimizer = (Some e, o'))
           \<or> ck_epoch ck = None"
  shows "epoch_of (load_checkpoint ops fs checkpoint_dir model optimizer) = 0
         \<and> model_of (load_checkpoint ops fs checkpoint_dir model optimizer) = m'
         \<and> (\<exists>e. printed (load_checkpoint ops fs checkpoint_dir model optimizer) =
                  [LoadingCheckpoint (path_join checkpoint_dir f), ErrorLoadingCheckpoint e])"
proof -
  have eq: "load_checkpoint ops fs checkpoint_dir model optimizer =
           restore ops (path_join checkpoint_dir f) ck model optimizer"
    using assms(1-3) by (rule load_checkpoint_restore)
  show ?thesis
    unfolding eq using assms(4-6)
    by (auto simp: restore_def split: option.splits prod.splits)
qed

text \<open>
  A checkpoint file without the \<open>optimizer\<close> key: the call returns 0, and the model,
  which was 0 before the call, is 50 after it.
\<close>

theorem load_checkpoint_not_atomic_witness:
  "epoch_of (load_checkpoint example_ops
       ((\<lambda>p. None)(''ck'' \<mapsto> [(''checkpoint_5.pth.tar'',
           Pickled \<lparr>ck_epoch = Some 6, ck_state_dict = Some 50, ck_optimizer = None\<rparr>)]))
       ''ck'' 0 0) = 0
   \<and> model_of (load_checkpoint example_ops
       ((\<lambda>p. None)(''ck'' \<mapsto> [(''checkpoint_5.pth.tar'',
           Pickled \<lparr>ck_epoch = Some 6, ck_state_dict = Some 50, ck_optimizer = None\<rparr>)]))
       ''ck'' 0 0) = 50"
proof -
  let ?ck = "\<lparr>ck_epoch = Some 6, ck_state_dict = Some (50::nat), ck_optimizer = (None :: nat option)\<rparr>"
  let ?d = "[(''checkpoint_5.pth.tar'', Pickled ?ck)]"
  let ?fs = "(\<lambda>p. None)(''ck'' \<mapsto> ?d)"
  have h1: "?fs ''ck'' = Some ?d" by simp
  have h2: "select_latest (map fst ?d) = Inr ''checkpoint_5.pth.tar''"
    by (simp add: select_latest_def py_max_def endswith_def epoch_key_5)
  have h3: "map_of ?d ''checkpoint_5.pth.tar'' = Some (Pickled ?ck)" by simp
  have h4: "ck_state_dict ?ck = Some 50" by simp
  have h5: "model_load_state_dict example_ops 50 0 = (None, 50)" by (simp add: example_ops_def)
  have h6: "ck_optimizer ?ck = None
           \<or> (\<exists>od e o'. ck_optimizer ?ck = Some od
                 \<and> optimizer_load_state_dict example_ops od 0 = (Some e, o'))
           \<or> ck_epoch ?ck = None" by simp
  from load_checkpoint_not_atomic
         [where fs = ?fs and d = ?d and checkpoint_dir = "''ck''", OF h1 h2 h3 h4 h5 h6]
  show ?thesis by simp
qed

section \<open>Evaluation\<close>

text \<open>
  Claim C9. For a classifier type other than \<open>logistic\<close> and \<open>knn\<close>,
  \<^verbatim>\<open>evaluate_model_incremental\<close> raises a ValueError whose message names the
  type, and has made no call into the classifier library or the metrics by then.
\<close>

theorem unsupported_classifier_type_raises:
  assumes "classifier_type \<noteq> ''logistic''" and "classifier_type \<noteq> ''knn''"
  shows "evaluate_model_incremental sk fs train_features_dir train_labels_dir test_features_dir
           test_labels_dir save_dir classifier_type =
         (Inl (ValueError (''Unsupported classifier type: '' @ classifier_type)), [])"
  using assms by (simp add: evaluate_model_incremental_def)

theorem unsupported_classifier_type_raises_witness:
  "evaluate_model_incremental example_sklearn (\<lambda>p. None) ''r'' ''r'' ''r'' ''r'' ''r'' ''svm'' =
     (Inl (ValueError ''Unsupported classifier type: svm''), [])"
  using unsupported_classifier_type_raises
          [of "''svm''" example_sklearn "\<lambda>p. None" "''r''" "''r''" "''r''" "''r''" "''r''"]
  by simp

section \<open>The training loop\<close>





text \<open>
  In general: a checkpoint written while epoch \<open>epoch\<close> runs stores \<open>epoch + 1\<close>,
  and a loop that starts at \<open>epoch + 1\<close> does not run epoch \<open>epoch\<close>.
\<close>

lemma checkpoint_stores_next_epoch:
  assumes "batch_idx mod 100 = 0"
  shows "\<exists>m' o'. read_file (w_fs (train_batch step checkpoint_dir epoch batch_idx images w))
                    checkpoint_dir (checkpoint_filename epoch) =
                  Inr (Pickled \<lparr>ck_epoch = Some (epoch + 1), ck_state_dict = Some m',
                                ck_optimizer = Some o'\<rparr>)"
  using assms
  by (cases "step images (w_model w, w_optimizer w)"; cases "w_fs w checkpoint_dir")
     (simp_all add: train_batch_def save_checkpoint_def makedirs_def write_file_def
        read_file_def AList.update_conv')

lemma resumed_loop_skips_epoch:
  "\<forall>(e, batch_idx, images) \<in> set (iterations (epoch + 1) epochs train_loader). epoch < e"
  by (auto simp: iterations_def py_range_def)


section \<open>The data loaders\<close>

lemma data_loader_empty: "batch_size = 0 \<or> xs = [] \<Longrightarrow> data_loader batch_size d xs = []"
  by (subst data_loader.simps) (simp only: if_True)
lemma data_loader_short: "batch_size \<noteq> 0 \<Longrightarrow> xs \<noteq> [] \<Longrightarrow> length xs < batch_size \<Longrightarrow>
   data_loader batch_size d xs = (if d then [] else [xs])"
  by (subst data_loader.simps) simp
lemma data_loader_step: "batch_size \<noteq> 0 \<Longrightarrow> xs \<noteq> [] \<Longrightarrow> \<not> length xs < batch_size \<Longrightarrow>
   data_loader batch_size d xs = take batch_size xs # data_loader batch_size d (drop batch_size xs)"
  by (subst data_loader.simps) simp


lemma data_loader_keeps_all:
  "0 < n \<Longrightarrow> concat (data_loader n False xs) = xs"
proof (induction "length xs" arbitrary: xs rule: less_induct)
  case less
  have n: "n \<noteq> 0" using less.prems by simp
  show ?case
  proof (cases "xs = []")
    case True
    then have "data_loader n False xs = []" by (intro data_loader_empty) simp
    with True show ?thesis by simp
  next
    case xs: False
    show ?thesis
    proof (cases "length xs < n")
      case True
      have "data_loader n False xs = (if False then [] else [xs])" using n xs True by (rule data_loader_short)
      then show ?thesis by simp
    next
      case full: False
      have eq: "data_loader n False xs = take n xs # data_loader n False (drop n xs)"
        using n xs full by (rule data_loader_step)
      have shorter: "length (drop n xs) < length xs" using n xs by simp
      have "concat (data_loader n False (drop n xs)) = drop n xs"
        using shorter less.prems by (rule less.hyps)
      then show ?thesis unfolding eq by simp
    qed
  qed
qed

lemma data_loader_batch_bounds:
  "b \<in> set (data_loader n drop_last xs) \<Longrightarrow> 0 < length b \<and> length b \<le> n"
proof (induction "length xs" arbitrary: xs rule: less_induct)
  case less
  show ?case
  proof (cases "n = 0 \<or> xs = []")
    case True
    then have "data_loader n drop_last xs = []" by (rule data_loader_empty)
    with less.prems show ?thesis by simp
  next
    case False
    then have n: "n \<noteq> 0" and xs: "xs \<noteq> []" by auto
    show ?thesis
    proof (cases "length xs < n")
      case True
      have "data_loader n drop_last xs = (if drop_last then [] else [xs])"
        using n xs True by (rule data_loader_short)
      with less.prems have "b = xs" by (simp split: if_splits)
      then show ?thesis using xs True by simp
    next
      case full: False
      have eq: "data_loader n drop_last xs = take n xs # data_loader n drop_last (drop n xs)"
        using n xs full by (rule data_loader_step)
      have shorter: "length (drop n xs) < length xs" using n xs by simp
      from less.prems eq have "b = take n xs \<or> b \<in> set (data_loader n drop_last (drop n xs))"
        by (simp only: list.set insert_iff)
      then show ?thesis
      proof
        assume "b = take n xs"
        then show ?thesis using full n by simp
      next
        assume "b \<in> set (data_loader n drop_last (drop n xs))"
        then show ?thesis using shorter by (rule less.hyps [rotated])
      qed
    qed
  qed
qed


text \<open>
  The two loaders of train.py are built without \<^verbatim>\<open>drop_last\<close>: they yield every
  sample of their split, in batches that are not empty and have at most 256 samples.
\<close>

lemma train_loaders_keep_all:
  "concat (fst (train_get_data_loaders train_set test_set)) = train_set
   \<and> concat (snd (train_get_data_loaders train_set test_set)) = test_set
   \<and> (\<forall>b\<in>set (fst (train_get_data_loaders train_set test_set)). 0 < length b \<and> length b \<le> 256)
   \<and> (\<forall>b\<in>set (snd (train_get_data_loaders train_set test_set)). 0 < length b \<and> length b \<le> 256)"
  unfolding train_get_data_loaders_def fst_conv snd_conv
  by (intro conjI ballI data_loader_keeps_all) (auto dest: data_loader_batch_bounds)




section \<open>The contrastive loss\<close>

lemma view_rows_concat_replicate:
  "view_rows m (length z) (concat (replicate m z)) = replicate m z"
  by (induction m) simp_all

lemma zip_replicate_left: "zip (replicate (length ys) a) ys = map (\<lambda>b. (a, b)) ys"
  by (induction ys) simp_all

lemma map_enumerate: "map (\<lambda>(i, x). f i x) (enumerate 0 xs) = map (\<lambda>i. f i (xs ! i)) [0..<length xs]"
  by (rule nth_equalityI) (simp_all add: nth_enumerate_eq)

lemma sim_matrix:
  "map2 (\<lambda>re rt. map2 (\<lambda>a b. g a b) re rt) (map (\<lambda>row. replicate (length z) row) z)
       (replicate (length z) z)
   = map (\<lambda>a. map (\<lambda>b. g a b) z) z"
  by (rule nth_equalityI) (simp_all add: zip_replicate_left)

lemma masked_fill_eye_nth:
  "masked_fill_eye (map (\<lambda>a. map (\<lambda>b. g a b) z) z) =
     map (\<lambda>k. map (\<lambda>c. if k = c then NegInf else Finite (g (z ! k) (z ! c))) [0..<length z])
       [0..<length z]"
  unfolding masked_fill_eye_def
  by (simp add: map_enumerate cong: map_cong)

lemma sum_list_upt: "sum_list (map f [0..<n]) = (\<Sum>j<n. f j)"
  by (simp add: interv_sum_list_conv_sum_set_nat atLeast0LessThan)

lemma sum_masked:
  "(\<Sum>j<(n::nat). exp_score (if k = j then NegInf else Finite (s j))) = (\<Sum>j\<in>{..<n} - {k}. exp (s j :: real))"
proof -
  have "(\<Sum>j<n. exp_score (if k = j then NegInf else Finite (s j)))
        = (\<Sum>j\<in>{..<n} - {k}. exp_score (if k = j then NegInf else Finite (s j)))"
    by (rule sum.mono_neutral_right) (auto simp: exp_score_def)
  also have "\<dots> = (\<Sum>j\<in>{..<n} - {k}. exp (s j))"
    by (rule sum.cong) (auto simp: exp_score_def)
  finally show ?thesis .
qed

lemma softmax_masked_row:
  "softmax_row (map (\<lambda>c. if k = c then NegInf else Finite (s c)) [0..<n]) =
     map (\<lambda>c. if c = k then 0 else exp (s c) / (\<Sum>j\<in>{..<n} - {k}. exp (s j))) [0..<n]"
proof -
  have "sum_list (map exp_score (map (\<lambda>c. if k = c then NegInf else Finite (s c)) [0..<n]))
        = (\<Sum>j\<in>{..<n} - {k}. exp (s j))"
    by (simp only: map_map comp_def sum_list_upt sum_masked)
  then show ?thesis
    unfolding softmax_row_def by (auto simp: exp_score_def)
qed

lemma nt_xent_loss_spec:
  assumes "1 \<le> N" and "length z = 2 * N"
  shows "nt_xent_loss z tau = Inr (spec_loss z tau)"
proof -
  let ?n = "2 * N"
  have N: "length z div 2 = N" using assms by simp
  have tiled: "view_rows ?n ?n (concat (replicate ?n z)) = replicate (length z) z"
    using view_rows_concat_replicate [of "length z" z] assms(2) by simp
  have sim: "map2 (\<lambda>re rt. map2 (\<lambda>a b. cosine_sim a b / tau) re rt)
               (map (\<lambda>row. replicate ?n row) z) (view_rows ?n ?n (concat (replicate ?n z)))
             = map (\<lambda>a. map (\<lambda>b. cosine_sim a b / tau) z) z"
    unfolding tiled using sim_matrix [of "\<lambda>a b. cosine_sim a b / tau" z] assms(2) by simp
  have sm: "map softmax_row (masked_fill_eye (map (\<lambda>a. map (\<lambda>b. cosine_sim a b / tau) z) z))
            = map (\<lambda>k. map (\<lambda>c. spec_prob z tau k c) [0..<?n]) [0..<?n]"
    unfolding masked_fill_eye_nth
    by (simp add: softmax_masked_row spec_prob_def spec_sim_def assms(2) comp_def)
  define pos where "pos = map2 (\<lambda>row l. row ! l)
      (map softmax_row (masked_fill_eye
         (map2 (\<lambda>re rt. map2 (\<lambda>a b. cosine_sim a b / tau) re rt)
               (map (\<lambda>row. replicate ?n row) z) (view_rows ?n ?n (concat (replicate ?n z))))))
      (nt_xent_labels N)"
  have loss: "nt_xent_loss z tau =
      Inr (- (sum_list (map (\<lambda>p. ln (p + 1 / 10 ^ 9)) pos) / real (length pos)))"
    unfolding nt_xent_loss_def Let_def N pos_def using assms by auto
  have "pos = map2 (\<lambda>row l. row ! l)
               (map (\<lambda>k. map (\<lambda>c. spec_prob z tau k c) [0..<?n]) [0..<?n]) (nt_xent_labels N)"
    unfolding pos_def sim sm ..
  also have "\<dots> = map (\<lambda>k. spec_prob z tau k (spec_positive N k)) [0..<?n]"
    using assms(1)
    by (intro nth_equalityI) (simp_all add: nt_xent_labels_def spec_positive_def)
  finally have pos: "pos = map (\<lambda>k. spec_prob z tau k (spec_positive N k)) [0..<?n]" .
  show ?thesis
    unfolding loss pos spec_loss_def
    by (simp add: sum_list_upt comp_def assms(2))
qed

lemma bij_betw_remove_point:
  assumes "bij_betw q A A" and "k \<in> A"
  shows "bij_betw q (A - {k}) (A - {q k})"
proof -
  have inj: "inj_on q A" and img: "q ` A = A" using assms(1) by (auto simp: bij_betw_def)
  have "q ` (A - {k}) = q ` A - q ` {k}"
    using inj assms(2) by (intro inj_on_image_set_diff [of q A]) auto
  then have "q ` (A - {k}) = A - {q k}" using img by simp
  moreover have "inj_on q (A - {k})" using inj by (rule inj_on_subset) auto
  ultimately show ?thesis by (simp add: bij_betw_def)
qed

lemma perm_invariant:
  assumes N: "1 \<le> N" and len: "length z = 2 * N"
      and dist: "distinct ps" and ran: "set ps = {..<N}"
  shows "spec_loss (permute_blocks ps z) tau = spec_loss z tau"
proof -
  let ?z' = "permute_blocks ps z"
  let ?A = "{..<2 * N}"
  define q where "q k = (if k < N then ps ! k else N + ps ! (k - N))" for k
  have lps: "length ps = N"
    using distinct_card [OF dist] ran by simp
  have half: "length z div 2 = N" using len by simp
  have len': "length ?z' = 2 * N" by (simp add: permute_blocks_def lps)
  have ps_lt: "ps ! i < N" if "i < N" for i
    using nth_mem [of i ps] that lps ran by auto
  have nth': "?z' ! k = z ! q k" if "k < 2 * N" for k
    using that by (auto simp: permute_blocks_def half lps q_def nth_append)
  have q_in: "q k \<in> ?A" if "k \<in> ?A" for k
    using that ps_lt [of k] ps_lt [of "k - N"] by (auto simp: q_def)
  have q_inj: "inj_on q ?A"
  proof (rule inj_onI)
    fix a b assume a: "a \<in> ?A" and b: "b \<in> ?A" and eq: "q a = q b"
    show "a = b"
    proof (cases "a < N")
      case True
      then have "q a < N" using ps_lt [of a] by (simp add: q_def)
      then have bN: "b < N" using eq by (auto simp: q_def split: if_splits)
      with True eq have "ps ! a = ps ! b" by (simp add: q_def)
      then show ?thesis using True bN dist lps by (simp add: nth_eq_iff_index_eq)
    next
      case False
      then have "N \<le> q a" by (simp add: q_def)
      then have bN: "\<not> b < N" using eq ps_lt [of b] by (auto simp: q_def split: if_splits)
      with False eq have "ps ! (a - N) = ps ! (b - N)" by (simp add: q_def)
      moreover have "a - N < N" "b - N < N" using a b False bN by auto
      ultimately have "a - N = b - N" using dist lps by (simp add: nth_eq_iff_index_eq)
      then show ?thesis using False bN by simp
    qed
  qed
  have "q ` ?A = ?A"
    by (rule endo_inj_surj) (use q_in q_inj in auto)
  then have bij: "bij_betw q ?A ?A" using q_inj by (simp add: bij_betw_def)
  have pos: "spec_positive N (q k) = q (spec_positive N k)" if "k \<in> ?A" for k
  proof (cases "k < N")
    case True
    then show ?thesis using ps_lt [of k] by (simp add: spec_positive_def q_def)
  next
    case False
    then have kN: "k - N < N" using that by auto
    have "(k + N) mod (2 * N) = k - N"
      using False that by (simp add: mod_if le_mod_geq)
    moreover have "(N + ps ! (k - N) + N) mod (2 * N) = ps ! (k - N)"
      using ps_lt [OF kN] by (simp add: mod_if le_mod_geq)
    ultimately show ?thesis using False kN by (simp add: spec_positive_def q_def)
  qed
  have pos_in: "spec_positive N k \<in> ?A" if "k \<in> ?A" for k
    using N by (simp add: spec_positive_def)
  have sim: "spec_sim ?z' tau k c = spec_sim z tau (q k) (q c)" if "k \<in> ?A" "c \<in> ?A" for k c
    using that by (simp add: spec_sim_def nth')
  have den: "(\<Sum>j\<in>?A - {k}. exp (spec_sim ?z' tau k j)) =
             (\<Sum>j\<in>?A - {q k}. exp (spec_sim z tau (q k) j))" if k: "k \<in> ?A" for k
  proof -
    have "(\<Sum>j\<in>?A - {k}. exp (spec_sim ?z' tau k j)) =
          (\<Sum>j\<in>?A - {k}. exp (spec_sim z tau (q k) (q j)))"
      by (rule sum.cong) (use sim k in auto)
    also have "\<dots> = (\<Sum>j\<in>?A - {q k}. exp (spec_sim z tau (q k) j))"
      by (rule sum.reindex_bij_betw [OF bij_betw_remove_point [OF bij k]])
    finally show ?thesis .
  qed
  have prob: "spec_prob ?z' tau k c = spec_prob z tau (q k) (q c)" if k: "k \<in> ?A" and c: "c \<in> ?A" for k c
  proof -
    have "c = k \<longleftrightarrow> q c = q k" using q_inj k c by (auto dest: inj_onD)
    then show ?thesis
      using den [OF k] sim [OF k c] by (simp add: spec_prob_def len len')
  qed
  have "(\<Sum>k<2 * N. ln (spec_prob ?z' tau k (spec_positive N k) + 1 / 10 ^ 9)) =
        (\<Sum>k<2 * N. ln (spec_prob z tau (q k) (spec_positive N (q k)) + 1 / 10 ^ 9))"
    by (rule sum.cong) (use prob pos pos_in in auto)
  also have "\<dots> = (\<Sum>k<2 * N. ln (spec_prob z tau k (spec_positive N k) + 1 / 10 ^ 9))"
    by (rule sum.reindex_bij_betw [OF bij])
  finally show ?thesis
    by (simp add: spec_loss_def len len' half)
qed

text \<open>
  Claim C1. For a stack \<open>z\<close> of \<open>2N\<close> rows, \<open>N \<ge> 1\<close>, and \<open>tau \<noteq> 0\<close>, the labels that
  \<^verbatim>\<open>nt_xent_loss\<close> gathers are \<open>(k + N) mod 2N\<close> for every anchor \<open>k\<close>: row
  \<open>k\<close> of the first half is paired with row \<open>k + N\<close> and the other way round. The
  loss is the negative mean, over the \<open>2N\<close> anchors, of the logarithm of the softmax
  probability (diagonal left out) at that column plus \<open>1e-9\<close>.
\<close>

theorem nt_xent_positive_partner:
  assumes "1 \<le> N" and "length z = 2 * N" and "tau \<noteq> 0"
  shows "nt_xent_labels N = map (\<lambda>k. (k + N) mod (2 * N)) [0..<2 * N]
         \<and> (\<forall>k<N. nt_xent_labels N ! k = k + N \<and> nt_xent_labels N ! (k + N) = k)
         \<and> nt_xent_loss z tau =
             Inr (- (\<Sum>k<2 * N. ln (spec_prob z tau k ((k + N) mod (2 * N)) + 1 / 10 ^ 9))
                    / real (2 * N))"
proof (intro conjI allI impI)
  show "nt_xent_labels N = map (\<lambda>k. (k + N) mod (2 * N)) [0..<2 * N]"
    by (simp add: nt_xent_labels_def)
next
  fix k assume "k < N"
  then show "nt_xent_labels N ! k = k + N" by (simp add: nt_xent_labels_def)
next
  fix k assume "k < N"
  then have "(k + N + N) mod (2 * N) = k" by (simp add: add.assoc flip: mult_2)
  with \<open>k < N\<close> show "nt_xent_labels N ! (k + N) = k" by (simp add: nt_xent_labels_def)
next
  show "nt_xent_loss z tau =
          Inr (- (\<Sum>k<2 * N. ln (spec_prob z tau k ((k + N) mod (2 * N)) + 1 / 10 ^ 9))
                 / real (2 * N))"
    using nt_xent_loss_spec [OF assms(1,2), of tau] assms(2)
    by (simp add: spec_loss_def spec_positive_def)
qed

text \<open>Two rows: each is the positive of the other, with probability 1.\<close>

theorem nt_xent_positive_partner_witness:
  "nt_xent_labels 1 = [1, 0]
   \<and> nt_xent_loss [[1, 0], [0, 1]] (1 / 2) = Inr (- ln (1 + 1 / 10 ^ 9))"
proof -
  have h1: "(1::nat) \<le> 1" by simp
  have h2: "length [[1, 0], [0, 1 :: real]] = 2 * 1" by simp
  have h3: "(1 / 2 :: real) \<noteq> 0" by simp
  have A: "{..<Suc (Suc 0)} - {0} = {Suc 0}" "{..<Suc (Suc 0)} - {Suc 0} = {0}" by auto
  have labels: "nt_xent_labels 1 = [1, 0]"
    by (simp add: nt_xent_labels_def upt_rec)
  from nt_xent_positive_partner [OF h1 h2 h3]
  have "nt_xent_loss [[1, 0], [0, 1]] (1 / 2) =
          Inr (- (\<Sum>k<2 * 1. ln (spec_prob [[1, 0], [0, 1]] (1 / 2) k ((k + 1) mod (2 * 1)) + 1 / 10 ^ 9))
                 / real (2 * 1))"
    by blast
  then have "nt_xent_loss [[1, 0], [0, 1]] (1 / 2) = Inr (- ln (1 + 1 / 10 ^ 9))"
    by (simp add: spec_prob_def A numeral_2_eq_2)
  with labels show ?thesis by simp
qed

text \<open>
  Claim C6. For a stack of \<open>2N\<close> rows, \<open>N \<ge> 1\<close>, \<open>tau \<noteq> 0\<close> and a permutation
  \<open>ps\<close> of the \<open>N\<close> samples, \<^verbatim>\<open>nt_xent_loss\<close> returns a loss for the stack and
  returns the same loss for the stack with \<open>ps\<close> applied to its first \<open>N\<close> rows
  and to its last \<open>N\<close> rows. (Over the real numbers the two values are equal.)
\<close>

theorem nt_xent_permutation_invariant:
  assumes "1 \<le> N" and "length z = 2 * N" and "distinct ps" and "set ps = {..<N}"
      and "tau \<noteq> 0"
  shows "\<exists>loss. nt_xent_loss z tau = Inr loss
               \<and> nt_xent_loss (permute_blocks ps z) tau = Inr loss"
proof -
  have "length ps = N" using distinct_card [OF assms(3)] assms(4) by simp
  then have len': "length (permute_blocks ps z) = 2 * N" by (simp add: permute_blocks_def)
  show ?thesis
    using nt_xent_loss_spec [OF assms(1) len'] nt_xent_loss_spec [OF assms(1,2)]
          perm_invariant [OF assms(1-4)]
    by simp
qed

text \<open>Four rows, the two samples swapped in both halves.\<close>

theorem nt_xent_permutation_invariant_witness:
  "\<exists>loss. nt_xent_loss [[1, 0], [0, 1], [1, 1], [1, 2]] (1 / 2) = Inr loss
         \<and> nt_xent_loss [[0, 1], [1, 0], [1, 2], [1, 1]] (1 / 2) = Inr loss"
proof -
  have h1: "(1::nat) \<le> 2" by simp
  have h2: "length [[1, 0], [0, 1], [1, 1], [1, 2 :: real]] = 2 * 2" by simp
  have h3: "distinct [1, 0 :: nat]" by simp
  have h4: "set [1, 0 :: nat] = {..<2}" by auto
  have h5: "(1 / 2 :: real) \<noteq> 0" by simp
  from nt_xent_permutation_invariant [OF h1 h2 h3 h4 h5] show ?thesis
    by (simp add: permute_blocks_def)
qed

section \<open>Feature extraction and the shards\<close>

subsection \<open>The names of the shards\<close>

lemma digit_cases: "d < 10 \<Longrightarrow> d \<in> {0, 1, 2, 3, 4, 5, 6, 7, 8, 9::nat}"
  by auto

lemma digit_char_code: "d < 10 \<Longrightarrow> of_char (digit_char d) = 48 + d"
  using digit_cases [of d] by (auto simp: digit_char_def)

lemma digits_value_snoc: "digits_value (ds @ [c]) = 10 * digits_value ds + (of_char c - 48)"
  by (simp add: digits_value_def)

lemma digits_value_digits_of: "digits_value (digits_of n) = n"
proof (induction n rule: digits_of.induct)
  case (1 n)
  show ?case
  proof (cases "n < 10")
    case True
    then have "digits_of n = [digit_char n]" by (subst digits_of.simps) simp
    then show ?thesis using True by (simp add: digits_value_def digit_char_code)
  next
    case False
    then have eq: "digits_of n = digits_of (n div 10) @ [digit_char (n mod 10)]"
      by (subst digits_of.simps) simp
    have "digits_value (digits_of (n div 10)) = n div 10" using False by (rule "1.IH")
    then show ?thesis
      unfolding eq digits_value_snoc by (simp add: digit_char_code)
  qed
qed

lemma digits_of_inj: "digits_of m = digits_of n \<Longrightarrow> m = n"
  by (metis digits_value_digits_of)

lemma py_str_nat: "py_str (int i) = digits_of i"
  by (simp add: py_str_def)

lemma features_name_inj: "features_name s i = features_name s j \<longleftrightarrow> i = j"
  by (auto simp: features_name_def py_str_nat dest: digits_of_inj)

lemma labels_name_inj: "labels_name s i = labels_name s j \<longleftrightarrow> i = j"
  by (auto simp: labels_name_def py_str_nat dest: digits_of_inj)

lemma features_name_not_labels_name: "features_name s i \<noteq> labels_name s j"
  by (simp add: features_name_def labels_name_def)

lemma startswith_append [simp]: "startswith (p @ rest) p"
  by (simp add: startswith_def)

lemma startswith_features_name: "startswith (features_name s i) (s @ ''_features_batch_'')"
  using startswith_append [of "s @ ''_features_batch_''" "py_str (int i) @ ''.npy''"]
  by (simp add: features_name_def)

lemma startswith_labels_name: "startswith (labels_name s i) (s @ ''_labels_batch_'')"
  using startswith_append [of "s @ ''_labels_batch_''" "py_str (int i) @ ''.npy''"]
  by (simp add: labels_name_def)

lemma not_startswith_features_labels:
  "\<not> startswith (features_name s i) (s @ ''_labels_batch_'')"
  by (simp add: startswith_def features_name_def)

lemma not_startswith_labels_features:
  "\<not> startswith (labels_name s i) (s @ ''_features_batch_'')"
  by (simp add: startswith_def labels_name_def)

subsection \<open>The directory after extraction\<close>

lemma write_shards_keys:
  assumes "\<And>k. i \<le> k \<Longrightarrow> features_name s k \<notin> set (map fst d) \<and> labels_name s k \<notin> set (map fst d)"
  shows "map fst (write_shards m s i bs d) =
           map fst d @ concat (map (\<lambda>k. [features_name s k, labels_name s k]) [i..<i + length bs])"
  using assms
proof (induction bs arbitrary: i d)
  case Nil
  then show ?case by simp
next
  case (Cons b bs)
  let ?d2 = "AList.update (labels_name s i) (Labels (fine_grained b))
               (AList.update (features_name s i) (Features (aggregated_features m (images b))) d)"
  have fresh: "features_name s i \<notin> set (map fst d)" "labels_name s i \<notin> set (map fst d)"
    using Cons.prems [of i] by simp_all
  have keys2: "map fst ?d2 = map fst d @ [features_name s i, labels_name s i]"
    using fresh features_name_not_labels_name [of s i i]
    by (simp add: AList.update_keys)
  have "\<And>k. Suc i \<le> k \<Longrightarrow>
          features_name s k \<notin> set (map fst ?d2) \<and> labels_name s k \<notin> set (map fst ?d2)"
  proof -
    fix k assume k: "Suc i \<le> k"
    then have "i \<le> k" "k \<noteq> i" by simp_all
    then show "features_name s k \<notin> set (map fst ?d2) \<and> labels_name s k \<notin> set (map fst ?d2)"
      unfolding keys2
      using Cons.prems [of k] features_name_not_labels_name [of s k i]
            features_name_not_labels_name [of s i k]
      by (simp add: features_name_inj labels_name_inj)
  qed
  from Cons.IH [OF this]
  have ih: "map fst (write_shards m s (Suc i) bs ?d2) =
          map fst ?d2 @ concat (map (\<lambda>k. [features_name s k, labels_name s k])
                                  [Suc i..<Suc i + length bs])" .
  have upt: "[i..<i + length (b # bs)] = i # [Suc i..<Suc i + length bs]"
    by (simp add: upt_conv_Cons del: upt_Suc)
  have "map fst (write_shards m s i (b # bs) d) = map fst (write_shards m s (Suc i) bs ?d2)"
    by simp
  also have "\<dots> = map fst d @ concat (map (\<lambda>k. [features_name s k, labels_name s k])
                                  (i # [Suc i..<Suc i + length bs]))"
    unfolding ih keys2 by (simp only: list.map concat.simps append.simps append_assoc)
  finally show ?case unfolding upt .
qed

lemma write_shards_untouched:
  assumes "\<And>k. i \<le> k \<Longrightarrow> name \<noteq> features_name s k \<and> name \<noteq> labels_name s k"
  shows "map_of (write_shards m s i bs d) name = map_of d name"
  using assms
proof (induction bs arbitrary: i d)
  case Nil
  then show ?case by simp
next
  case (Cons b bs)
  have "\<And>k. Suc i \<le> k \<Longrightarrow> name \<noteq> features_name s k \<and> name \<noteq> labels_name s k"
    using Cons.prems by simp
  from Cons.IH [OF this] Cons.prems [of i] show ?case
    by (simp add: AList.update_conv')
qed

lemma write_shards_contents:
  assumes "k < length bs"
  shows "map_of (write_shards m s i bs d) (features_name s (i + k)) =
           Some (Features (aggregated_features m (images (bs ! k))))
         \<and> map_of (write_shards m s i bs d) (labels_name s (i + k)) =
           Some (Labels (fine_grained (bs ! k)))"
  using assms
proof (induction bs arbitrary: i d k)
  case Nil
  then show ?case by simp
next
  case (Cons b bs)
  let ?d2 = "AList.update (labels_name s i) (Labels (fine_grained b))
               (AList.update (features_name s i) (Features (aggregated_features m (images b))) d)"
  show ?case
  proof (cases k)
    case 0
    have f: "map_of (write_shards m s (Suc i) bs ?d2) (features_name s i) =
               map_of ?d2 (features_name s i)"
      by (rule write_shards_untouched)
         (simp add: features_name_inj features_name_not_labels_name)
    have l: "map_of (write_shards m s (Suc i) bs ?d2) (labels_name s i) =
               map_of ?d2 (labels_name s i)"
      by (rule write_shards_untouched)
         (simp add: labels_name_inj features_name_not_labels_name [symmetric])
    show ?thesis
      using 0 f l features_name_not_labels_name [of s i i]
      by (simp add: AList.update_conv')
  next
    case (Suc k')
    then have "k' < length bs" using Cons.prems by simp
    from Cons.IH [OF this, of "Suc i" ?d2] Suc show ?thesis by simp
  qed
qed

lemma extract_loop_writes:
  assumes "fs save_dir = Some d"
  shows "\<exists>fs'. extract_loop m save_dir s i bs fs = Inr fs'
           \<and> fs' save_dir = Some (write_shards m s i bs d)"
  using assms
proof (induction bs arbitrary: i fs d)
  case Nil
  then show ?case by simp
next
  case (Cons b bs)
  then show ?case by (simp add: write_file_def)
qed

lemma load_all_contents:
  assumes "fs dir = Some d" and "\<And>n. n \<in> set names \<Longrightarrow> map_of d n = Some (g n)"
  shows "load_all fs dir names = Inr (map g names)"
  using assms(2)
proof (induction names)
  case Nil
  then show ?case by simp
next
  case (Cons n names)
  then show ?case using assms(1) by (simp add: read_file_def)
qed

lemma np_concatenate_features:
  assumes "rs \<noteq> []" and "same_length (concat rs)"
  shows "np_concatenate (map Features rs) = Inr (Features (concat rs))"
  using assms by (simp add: np_concatenate_def rows_of_def list_all_iff comp_def)

lemma np_concatenate_labels:
  assumes "ls \<noteq> []"
  shows "np_concatenate (map Labels ls) = Inr (Labels (concat ls))"
proof -
  obtain l ls' where "ls = l # ls'" using assms by (cases ls) auto
  then show ?thesis
    by (simp add: np_concatenate_def rows_of_def labels_of_def list_all_iff comp_def)
qed

subsection \<open>The round trip\<close>

lemma append_less_cancel: "(p @ x < p @ y) \<longleftrightarrow> (x < y)" for p :: "'a::linorder list"
  by (induction p) simp_all

lemma digit_char_less: "i < j \<Longrightarrow> j < 10 \<Longrightarrow> digit_char i < digit_char j"
  by (simp add: less_char_def digit_char_code)

lemma digits_of_digit: "k < 10 \<Longrightarrow> digits_of k = [digit_char k]"
  by (subst digits_of.simps) simp

lemma features_name_less:
  "i < j \<Longrightarrow> j < 10 \<Longrightarrow> features_name s i < features_name s j"
  by (simp add: features_name_def py_str_nat digits_of_digit append_less_cancel digit_char_less)

lemma labels_name_less:
  "i < j \<Longrightarrow> j < 10 \<Longrightarrow> labels_name s i < labels_name s j"
  by (simp add: labels_name_def py_str_nat digits_of_digit append_less_cancel digit_char_less)

lemma sort_names_upto_10:
  assumes "n \<le> 10" and "\<And>i j. i < j \<Longrightarrow> j < 10 \<Longrightarrow> (f i :: string) < f j"
  shows "sort (map f [0..<n]) = map f [0..<n]"
proof (rule sorted_sort_id)
  show "sorted (map f [0..<n])"
    unfolding sorted_iff_nth_mono
  proof (intro allI impI)
    fix i j assume "i \<le> j" and "j < length (map f [0..<n])"
    then have "i = j \<or> (i < j \<and> j < 10)" using assms(1) by auto
    then have "f i \<le> f j" using assms(2) [of i j] by auto
    then show "map f [0..<n] ! i \<le> map f [0..<n] ! j"
      using \<open>i \<le> j\<close> \<open>j < length (map f [0..<n])\<close> by simp
  qed
qed

lemma same_length_iff:
  "same_length rs \<longleftrightarrow> (\<forall>x\<in>set rs. \<forall>y\<in>set rs. length x = length y)"
  by (cases rs) (auto simp: same_length_def list_all_iff)

lemma filter_shard_names:
  "filter (\<lambda>f. startswith f (s @ ''_features_batch_''))
      (concat (map (\<lambda>k. [features_name s k, labels_name s k]) ks)) = map (features_name s) ks"
  "filter (\<lambda>f. startswith f (s @ ''_labels_batch_''))
      (concat (map (\<lambda>k. [features_name s k, labels_name s k]) ks)) = map (labels_name s) ks"
  by (induction ks)
     (simp_all add: startswith_features_name startswith_labels_name
        not_startswith_features_labels not_startswith_labels_features)

lemma load_after_extract:
  fixes loader :: "('img, 'l) batch list"
  assumes fresh: "\<forall>d. fs save_dir = Some d \<longrightarrow>
                    (\<forall>n\<in>set (map fst d). \<not> startswith n (s @ ''_features_batch_'')
                                        \<and> \<not> startswith n (s @ ''_labels_batch_''))"
      and ne: "loader \<noteq> []"
      and sf: "sort (map (features_name s) [0..<length loader]) = map (features_name s) ks"
      and sl: "sort (map (labels_name s) [0..<length loader]) = map (labels_name s) ks'"
      and dims: "same_length (concat (map (\<lambda>b. aggregated_features model (images b)) loader))"
  shows "\<exists>fs'. extract_features_and_labels model loader save_dir s fs = Inr fs'
           \<and> load_and_concatenate_features fs' save_dir s =
               Inr (Features (concat (map (\<lambda>k. aggregated_features model (images (loader ! k))) ks)),
                    Labels (concat (map (\<lambda>k. fine_grained (loader ! k)) ks')))"
proof -
  let ?N = "length loader"
  let ?Pf = "\<lambda>f. startswith f (s @ ''_features_batch_'')"
  let ?Pl = "\<lambda>f. startswith f (s @ ''_labels_batch_'')"
  define d0 where "d0 = (case fs save_dir of None \<Rightarrow> [] | Some d \<Rightarrow> d)"
  have made: "makedirs fs save_dir save_dir = Some d0"
    by (simp add: makedirs_def d0_def split: option.splits)
  have fresh0: "\<forall>n\<in>set (map fst d0). \<not> ?Pf n \<and> \<not> ?Pl n"
    using fresh by (cases "fs save_dir") (simp_all add: d0_def)
  define D where "D = write_shards model s 0 loader d0"
  from extract_loop_writes
         [where fs = "makedirs fs save_dir" and save_dir = save_dir and d = d0
            and m = model and s = s and i = 0 and bs = loader, OF made]
  obtain fs' where
    ex: "extract_features_and_labels model loader save_dir s fs = Inr fs'"
    and dir: "fs' save_dir = Some D"
    by (auto simp: extract_features_and_labels_def D_def)
  have keys: "map fst D = map fst d0 @
                concat (map (\<lambda>k. [features_name s k, labels_name s k]) [0..<?N])"
  proof -
    have "\<And>k. 0 \<le> k \<Longrightarrow>
            features_name s k \<notin> set (map fst d0) \<and> labels_name s k \<notin> set (map fst d0)"
      using fresh0 startswith_features_name startswith_labels_name by blast
    from write_shards_keys [of 0 s d0 model loader, OF this] show ?thesis by (simp add: D_def)
  qed
  have none: "filter ?Pf (map fst d0) = []" "filter ?Pl (map fst d0) = []"
    using fresh0 by (simp_all add: filter_empty_conv)
  have ff: "sorted_files fs' save_dir (s @ ''_features_batch_'') = Inr (map (features_name s) ks)"
    by (simp add: sorted_files_def listdir_def dir keys none filter_shard_names sf)
  have fl: "sorted_files fs' save_dir (s @ ''_labels_batch_'') = Inr (map (labels_name s) ks')"
    by (simp add: sorted_files_def listdir_def dir keys none filter_shard_names sl)
  have "set (map (features_name s) ks) = set (sort (map (features_name s) [0..<?N]))"
    by (simp only: sf)
  then have "set (map (features_name s) ks) = set (map (features_name s) [0..<?N])"
    by (simp only: set_sort)
  then have ks: "set ks = {..<?N}"
    using inj_image_eq_iff [of "features_name s" "set ks" "{..<?N}"]
    by (simp add: inj_on_def features_name_inj atLeast0LessThan)
  have "set (map (labels_name s) ks') = set (sort (map (labels_name s) [0..<?N]))"
    by (simp only: sl)
  then have "set (map (labels_name s) ks') = set (map (labels_name s) [0..<?N])"
    by (simp only: set_sort)
  then have ks': "set ks' = {..<?N}"
    using inj_image_eq_iff [of "labels_name s" "set ks'" "{..<?N}"]
    by (simp add: inj_on_def labels_name_inj atLeast0LessThan)
  have "length (map (features_name s) ks) = length (sort (map (features_name s) [0..<?N]))"
    by (simp only: sf)
  then have ks_ne: "ks \<noteq> []" using ne by auto
  have "length (map (labels_name s) ks') = length (sort (map (labels_name s) [0..<?N]))"
    by (simp only: sl)
  then have ks'_ne: "ks' \<noteq> []" using ne by auto
  have cf: "map_of D (features_name s k) = Some (Features (aggregated_features model (images (loader ! k))))"
    and cl: "map_of D (labels_name s k) = Some (Labels (fine_grained (loader ! k)))"
    if "k < ?N" for k
    using write_shards_contents [OF that, of model s 0 d0] by (simp_all add: D_def)
  have lf: "load_all fs' save_dir (map (features_name s) ks) =
              Inr (map (\<lambda>n. the (map_of D n)) (map (features_name s) ks))"
    using dir by (rule load_all_contents) (use ks cf in auto)
  have ll: "load_all fs' save_dir (map (labels_name s) ks') =
              Inr (map (\<lambda>n. the (map_of D n)) (map (labels_name s) ks'))"
    using dir by (rule load_all_contents) (use ks' cl in auto)
  have mf: "map (\<lambda>n. the (map_of D n)) (map (features_name s) ks) =
              map Features (map (\<lambda>k. aggregated_features model (images (loader ! k))) ks)"
    using ks cf by auto
  have ml: "map (\<lambda>n. the (map_of D n)) (map (labels_name s) ks') =
              map Labels (map (\<lambda>k. fine_grained (loader ! k)) ks')"
    using ks' cl by auto
  have "set (concat (map (\<lambda>k. aggregated_features model (images (loader ! k))) ks))
          \<subseteq> set (concat (map (\<lambda>b. aggregated_features model (images b)) loader))"
    using ks by auto
  then have dims': "same_length (concat (map (\<lambda>k. aggregated_features model (images (loader ! k))) ks))"
    using dims unfolding same_length_iff by blast
  have c1: "np_concatenate (map Features (map (\<lambda>k. aggregated_features model (images (loader ! k))) ks))
            = Inr (Features (concat (map (\<lambda>k. aggregated_features model (images (loader ! k))) ks)))"
    by (rule np_concatenate_features) (use ks_ne dims' in simp_all)
  have c2: "np_concatenate (map Labels (map (\<lambda>k. fine_grained (loader ! k)) ks'))
            = Inr (Labels (concat (map (\<lambda>k. fine_grained (loader ! k)) ks')))"
    by (rule np_concatenate_labels) (use ks'_ne in simp)
  have "load_and_concatenate_features fs' save_dir s =
               Inr (Features (concat (map (\<lambda>k. aggregated_features model (images (loader ! k))) ks)),
                    Labels (concat (map (\<lambda>k. fine_grained (loader ! k)) ks')))"
    unfolding load_and_concatenate_features_def ff fl sum.case lf ll mf ml c1 c2 by simp
  with ex show ?thesis by blast
qed

lemma load_after_extract_upto_10:
  fixes loader :: "('img, 'l) batch list"
  assumes "1 \<le> length loader" and "length loader \<le> 10"
      and "\<forall>d. fs save_dir = Some d \<longrightarrow>
             (\<forall>n\<in>set (map fst d). \<not> startswith n (split_name @ ''_features_batch_'')
                                 \<and> \<not> startswith n (split_name @ ''_labels_batch_''))"
      and "same_length (concat (map (\<lambda>b. aggregated_features model (images b)) loader))"
  shows "\<exists>fs'. extract_features_and_labels model loader save_dir split_name fs = Inr fs'
           \<and> load_and_concatenate_features fs' save_dir split_name =
               Inr (Features (concat (map (\<lambda>b. aggregated_features model (images b)) loader)),
                    Labels (concat (map fine_grained loader)))"
proof -
  have ne: "loader \<noteq> []" using assms(1) by auto
  have sf: "sort (map (features_name split_name) [0..<length loader]) =
              map (features_name split_name) [0..<length loader]"
    using assms(2) by (rule sort_names_upto_10) (rule features_name_less)
  have sl: "sort (map (labels_name split_name) [0..<length loader]) =
              map (labels_name split_name) [0..<length loader]"
    using assms(2) by (rule sort_names_upto_10) (rule labels_name_less)
  from load_after_extract [where fs = fs and save_dir = save_dir, OF assms(3) ne sf sl assms(4)]
  have "\<exists>fs'. extract_features_and_labels model loader save_dir split_name fs = Inr fs'
           \<and> load_and_concatenate_features fs' save_dir split_name =
               Inr (Features (concat (map (\<lambda>k. aggregated_features model (images (loader ! k)))
                                         [0..<length loader])),
                    Labels (concat (map (\<lambda>k. fine_grained (loader ! k)) [0..<length loader])))" .
  moreover have "map (\<lambda>k. aggregated_features model (images (loader ! k))) [0..<length loader] =
                   map (\<lambda>b. aggregated_features model (images b)) loader"
    by (rule nth_equalityI) simp_all
  moreover have "map (\<lambda>k. fine_grained (loader ! k)) [0..<length loader] = map fine_grained loader"
    by (rule nth_equalityI) simp_all
  ultimately show ?thesis by simp
qed







text \<open>
  Without any batch, the directory holds no shard and \<^verbatim>\<open>np.concatenate\<close> raises.
\<close>

lemma no_shards_raises:
  "\<exists>fs'. extract_features_and_labels model [] save_dir split_name (\<lambda>p. None) = Inr fs'
     \<and> load_and_concatenate_features fs' save_dir split_name =
         Inl (ValueError ''need at least one array to concatenate'')"
  by (simp add: extract_features_and_labels_def makedirs_def load_and_concatenate_features_def
        sorted_files_def listdir_def np_concatenate_def)

subsection \<open>The rows of a shard\<close>

lemma view_rows_concat:
  "\<forall>s\<in>set xss. length s = n \<Longrightarrow> view_rows (length xss) n (concat xss) = xss"
  by (induction xss) simp_all

lemma view_rows_map_concat:
  assumes "\<forall>s\<in>set xss. length s = n"
  shows "view_rows (length xss) n (map f (concat xss)) = map (map f) xss"
proof -
  have "view_rows (length (map (map f) xss)) n (concat (map (map f) xss)) = map (map f) xss"
    by (rule view_rows_concat) (use assms in auto)
  then show ?thesis by (simp add: map_concat)
qed

lemma mean_dim1_rows:
  assumes "vs \<noteq> []" and "\<forall>v\<in>set vs. length v = D"
  shows "mean_dim1 vs = map (\<lambda>j. (\<Sum>n<length vs. vs ! n ! j) / real (length vs)) [0..<D]"
proof -
  have "length (hd vs) = D" using assms by simp
  moreover have "sum_list (map (\<lambda>v. v ! j) vs) = (\<Sum>n<length vs. vs ! n ! j)" for j
    by (simp add: sum_list_sum_nth atLeast0LessThan)
  ultimately show ?thesis by (simp add: mean_dim1_def)
qed

lemma aggregated_features_rows:
  assumes rect: "\<forall>sample\<in>set imgs. length sample = num_img"
      and pos: "0 < num_img"
      and dim: "\<forall>sample\<in>set imgs. \<forall>img\<in>set sample. length (base model img) = D"
  shows "length (aggregated_features model imgs) = length imgs"
    and "i < length imgs \<Longrightarrow>
         aggregated_features model imgs ! i =
           map (\<lambda>j. (\<Sum>n<num_img. base model (imgs ! i ! n) ! j) / real num_img) [0..<D]"
proof -
  have num: "imgs \<noteq> [] \<Longrightarrow> length (hd imgs) = num_img" using rect by simp
  have agg: "aggregated_features model imgs = map mean_dim1 (map (map (base model)) imgs)"
  proof (cases "imgs = []")
    case True
    then show ?thesis by (simp add: aggregated_features_def)
  next
    case False
    then show ?thesis
      using view_rows_map_concat [OF rect, of "base model"] num
      by (simp add: aggregated_features_def Let_def)
  qed
  show "length (aggregated_features model imgs) = length imgs" by (simp add: agg)
  assume i: "i < length imgs"
  let ?vs = "map (base model) (imgs ! i)"
  have li: "length (imgs ! i) = num_img" using rect i by simp
  have ne: "?vs \<noteq> []" using li pos by auto
  have all: "\<forall>v\<in>set ?vs. length v = D" using dim i by auto
  have "aggregated_features model imgs ! i = mean_dim1 ?vs" using i by (simp add: agg)
  also have "\<dots> = map (\<lambda>j. (\<Sum>n<length ?vs. ?vs ! n ! j) / real (length ?vs)) [0..<D]"
    using ne all by (rule mean_dim1_rows)
  also have "\<dots> = map (\<lambda>j. (\<Sum>n<num_img. base model (imgs ! i ! n) ! j) / real num_img) [0..<D]"
    using li by simp
  finally show "aggregated_features model imgs ! i =
           map (\<lambda>j. (\<Sum>n<num_img. base model (imgs ! i ! n) ! j) / real num_img) [0..<D]" .
qed

lemma aggregated_features_projection_head:
  "aggregated_features (model\<lparr>projection_head := ph\<rparr>) imgs = aggregated_features model imgs"
  by (simp add: aggregated_features_def)

lemma extract_loop_projection_head:
  "extract_loop (model\<lparr>projection_head := ph\<rparr>) save_dir s i bs fs =
   extract_loop model save_dir s i bs fs"
  by (induction bs arbitrary: i fs)
     (simp_all add: aggregated_features_projection_head split: sum.splits)

lemma extract_persists:
  assumes "k < length loader"
  shows "\<exists>fs'. extract_features_and_labels model loader save_dir s fs = Inr fs'
           \<and> read_file fs' save_dir (features_name s k) =
               Inr (Features (aggregated_features model (images (loader ! k))))
           \<and> read_file fs' save_dir (labels_name s k) = Inr (Labels (fine_grained (loader ! k)))"
proof -
  define d0 where "d0 = (case fs save_dir of None \<Rightarrow> [] | Some d \<Rightarrow> d)"
  have made: "makedirs fs save_dir save_dir = Some d0"
    by (simp add: makedirs_def d0_def split: option.splits)
  from extract_loop_writes
         [where fs = "makedirs fs save_dir" and save_dir = save_dir and d = d0
            and m = model and s = s and i = 0 and bs = loader, OF made]
  obtain fs' where
    ex: "extract_features_and_labels model loader save_dir s fs = Inr fs'"
    and dir: "fs' save_dir = Some (write_shards model s 0 loader d0)"
    by (auto simp: extract_features_and_labels_def)
  from write_shards_contents [OF assms, of model s 0 d0] ex dir show ?thesis
    by (simp add: read_file_def)
qed

text \<open>
  Claim C4. For a batch of the loader whose samples all have \<open>num_img\<close> images,
  \<open>num_img > 0\<close>, and a backbone that gives feature vectors of length \<open>D\<close>, the
  feature shard that extraction writes for the batch has one row per sample, and the
  row of a sample is the elementwise mean of the backbone's feature vectors of its
  \<open>num_img\<close> images. The projection head plays no part: whatever it is, extraction
  leaves the same files.
\<close>

theorem persisted_features_are_means:
  fixes loader :: "('img, 'l) batch list"
  assumes "k < length loader"
      and "\<forall>sample\<in>set (images (loader ! k)). length sample = num_img"
      and "0 < num_img"
      and "\<forall>sample\<in>set (images (loader ! k)). \<forall>img\<in>set sample. length (base model img) = D"
  shows "\<exists>fs' rows.
           extract_features_and_labels model loader save_dir split_name fs = Inr fs'
           \<and> read_file fs' save_dir (features_name split_name k) = Inr (Features rows)
           \<and> length rows = length (images (loader ! k))
           \<and> (\<forall>i<length rows.
                 rows ! i = map (\<lambda>j. (\<Sum>n<num_img. base model (images (loader ! k) ! i ! n) ! j)
                                       / real num_img) [0..<D])
           \<and> extract_features_and_labels (model\<lparr>projection_head := ph\<rparr>) loader save_dir
                 split_name fs = Inr fs'"
proof -
  from extract_persists [OF assms(1), of model save_dir split_name fs] obtain fs' where
    ex: "extract_features_and_labels model loader save_dir split_name fs = Inr fs'"
    and rd: "read_file fs' save_dir (features_name split_name k) =
               Inr (Features (aggregated_features model (images (loader ! k))))"
    by blast
  have ph: "extract_features_and_labels (model\<lparr>projection_head := ph\<rparr>) loader save_dir
              split_name fs = Inr fs'"
    using ex by (simp add: extract_features_and_labels_def extract_loop_projection_head)
  from aggregated_features_rows [OF assms(2,3,4)] ex rd ph show ?thesis
    by (intro exI [of _ fs'] exI [of _ "aggregated_features model (images (loader ! k))"]) simp
qed

lemma three_batches_features:
  "map (\<lambda>b. aggregated_features example_encoder (images b)) three_batches =
     [[[3], [1]], [[2], [4]], [[0], [6]]]"
  by (simp add: three_batches_def aggregated_features_def example_encoder_def mean_dim1_def)

text \<open>
  The example of claim C4: three batches of two samples with four images each. The
  shard of the second batch holds the two means, and the concatenated feature matrix
  has six rows, the means of the six samples in the loader's order.
\<close>

theorem persisted_features_are_means_witness:
  "\<exists>fs'. extract_features_and_labels example_encoder three_batches ''results'' ''test''
            (\<lambda>p. None) = Inr fs'
     \<and> read_file fs' ''results'' (features_name ''test'' 1) = Inr (Features [[2], [4]])
     \<and> load_and_concatenate_features fs' ''results'' ''test'' =
         Inr (Features [[3], [1], [2], [4], [0], [6]], Labels [0, 1, 2, 3, 4, 5])"
proof -
  have h1: "1 < length three_batches" by (simp add: three_batches_def)
  have h2: "\<forall>sample\<in>set (images (three_batches ! 1)). length sample = 4"
    by (simp add: three_batches_def)
  have h3: "0 < (4::nat)" by simp
  have h4: "\<forall>sample\<in>set (images (three_batches ! 1)). \<forall>img\<in>set sample.
              length (base example_encoder img) = 1"
    by (simp add: example_encoder_def)
  from persisted_features_are_means
         [where fs = "\<lambda>p. None" and save_dir = "''results''" and split_name = "''test''"
            and ph = "\<lambda>v. v", OF h1 h2 h3 h4]
  obtain fs' rows where
    ex: "extract_features_and_labels example_encoder three_batches ''results'' ''test''
           (\<lambda>p. None) = Inr fs'"
    and rd: "read_file fs' ''results'' (features_name ''test'' 1) = Inr (Features rows)"
    and len: "length rows = length (images (three_batches ! 1))"
    and means: "\<forall>i<length rows.
                 rows ! i = map (\<lambda>j. (\<Sum>n<4. base example_encoder (images (three_batches ! 1) ! i ! n) ! j)
                                       / real 4) [0..<1]"
    by blast
  have len2: "length rows = 2" using len by (simp add: three_batches_def)
  have four: "{..<4::nat} = {0, 1, 2, 3}" by auto
  have r0: "rows ! 0 = [2]" and r1: "rows ! 1 = [4]"
    using means len2 by (simp_all add: three_batches_def example_encoder_def four)
  have rows: "rows = [[2], [4]]"
    using len2 r0 r1 by (intro nth_equalityI) (auto simp: less_Suc_eq numeral_2_eq_2)
  have f1: "1 \<le> length three_batches" "length three_batches \<le> 10"
    by (simp_all add: three_batches_def)
  have f3: "\<forall>d. (\<lambda>p. None) ''results'' = Some d \<longrightarrow>
             (\<forall>n\<in>set (map fst d). \<not> startswith n (''test'' @ ''_features_batch_'')
                                 \<and> \<not> startswith n (''test'' @ ''_labels_batch_''))"
    by simp
  have f4: "same_length (concat (map (\<lambda>b. aggregated_features example_encoder (images b))
                                     three_batches))"
    by (simp add: three_batches_features same_length_def)
  from load_after_extract_upto_10
         [where fs = "\<lambda>p. None" and save_dir = "''results''", OF f1 f3 f4] ex
  have "load_and_concatenate_features fs' ''results'' ''test'' =
         Inr (Features (concat (map (\<lambda>b. aggregated_features example_encoder (images b))
                                  three_batches)),
              Labels (concat (map fine_grained three_batches)))"
    by auto
  then have "load_and_concatenate_features fs' ''results'' ''test'' =
         Inr (Features [[3], [1], [2], [4], [0], [6]], Labels [0, 1, 2, 3, 4, 5])"
    unfolding three_batches_features by (simp add: three_batches_def)
  with ex rd rows show ?thesis by blast
qed

end
